theory Spec2Isabelle
  imports Complex_Main
begin

section \<open>The masking and product stage of the imaging pipeline\<close>

text \<open>
  This theory embeds \<^verbatim>\<open>src/phangsPipeline/productHandler.py\<close>: the resolver of file
  names (\<^verbatim>\<open>_fname_dict\<close>), the two mask recipes, the mask writer and the product writer.
  Every method of \<^verbatim>\<open>ProductHandler\<close> becomes a function from the state of the world
  (the file system and the log) to a result and the new state. A Python exception is the
  result \<open>Inl e\<close>; the state beside it is the one the exception left behind, since nothing
  is rolled back.
\<close>

subsection \<open>Exceptions, arrays and FITS files\<close>

datatype error =
    Exception string
  | NameError string
  | KeyError string
  | TypeError string
  | ValueError string
  | OSError string
  | FileExistsError string
  | FileNotFoundError string
  | IsADirectoryError string

text \<open>
  A numpy array is its shape and its elements in row-major order. Cube values and noise
  values are floats; no arithmetic of this file touches them, so they are rationals here.
\<close>

record 'a ndarray =
  shape :: "nat list"
  elems :: "'a list"

text \<open>A FITS header is its list of cards; a WCS is the part of a header it is built from.\<close>

type_synonym header = "(string \<times> string) list"
type_synonym wcs = "(string \<times> string) list"

record fits =
  hdr :: header
  dat :: "rat ndarray"

datatype content = Fits fits | NotFits

datatype node = Dir | File content

datatype level = DEBUG | INFO | WARNING | ERROR

text \<open>
  The world: a flat name space of paths (a path names a directory, a file or nothing)
  and the records the module's logger has received, oldest first.
\<close>

record world =
  fs :: "string \<rightharpoonup> node"
  logged :: "(level \<times> string) list"

type_synonym 'a action = "world \<Rightarrow> (error + 'a) \<times> world"

definition and_then :: "'a action \<Rightarrow> ('a \<Rightarrow> 'b action) \<Rightarrow> 'b action" where
  "and_then m f s = (case m s of (Inl e, s') \<Rightarrow> (Inl e, s') | (Inr x, s') \<Rightarrow> f x s')"

definition logger :: "level \<Rightarrow> string \<Rightarrow> world \<Rightarrow> world" where
  "logger l msg s = s\<lparr>logged := logged s @ [(l, msg)]\<rparr>"

subsection \<open>The operating system and the FITS library\<close>

definition isfile :: "world \<Rightarrow> string \<Rightarrow> bool" where
  "isfile s p = (case fs s p of Some (File c) \<Rightarrow> True | Some Dir \<Rightarrow> False | None \<Rightarrow> False)"

definition isdir :: "world \<Rightarrow> string \<Rightarrow> bool" where
  "isdir s p = (case fs s p of Some Dir \<Rightarrow> True | Some (File c) \<Rightarrow> False | None \<Rightarrow> False)"

text \<open>
  \<^verbatim>\<open>os.path.isfile(None)\<close> does not answer False: \<^verbatim>\<open>os.stat(None)\<close> raises TypeError and
  \<^verbatim>\<open>isfile\<close> catches OSError and ValueError only.
\<close>

definition isfile_arg :: "world \<Rightarrow> string option \<Rightarrow> error + bool" where
  "isfile_arg s a =
     (case a of
        None \<Rightarrow> Inl (TypeError ''stat: path should be string, bytes, os.PathLike or integer, not NoneType'')
      | Some p \<Rightarrow> Inr (isfile s p))"

text \<open>\<^verbatim>\<open>os.remove\<close>, called on paths that \<^verbatim>\<open>isfile\<close> has just accepted.\<close>

definition remove :: "string \<Rightarrow> world \<Rightarrow> world" where
  "remove p s = s\<lparr>fs := (fs s)(p := None)\<rparr>"

text \<open>
  \<^verbatim>\<open>os.makedirs(p)\<close> raises when \<open>p\<close> exists. The name space is flat: the parents of \<open>p\<close>
  are not tracked.
\<close>

definition makedirs :: "string \<Rightarrow> unit action" where
  "makedirs p s =
     (case fs s p of
        None \<Rightarrow> (Inr (), s\<lparr>fs := (fs s)(p \<mapsto> Dir)\<rparr>)
      | Some n \<Rightarrow> (Inl (FileExistsError p), s))"

text \<open>\<^verbatim>\<open>fits.getdata\<close> and \<^verbatim>\<open>fits.open\<close>: the primary HDU of the file at a path.\<close>

definition fits_open :: "string \<Rightarrow> fits action" where
  "fits_open p s =
     (case fs s p of
        None \<Rightarrow> (Inl (FileNotFoundError p), s)
      | Some Dir \<Rightarrow> (Inl (IsADirectoryError p), s)
      | Some (File NotFits) \<Rightarrow> (Inl (OSError ''No SIMPLE card found, this file does not appear to be a valid FITS file''), s)
      | Some (File (Fits f)) \<Rightarrow> (Inr f, s))"

text \<open>
  \<^verbatim>\<open>SpectralCube.write(outfile, format="fits")\<close>: \<^verbatim>\<open>overwrite\<close> is False by default, so
  the write raises when something is at the path already.
\<close>

definition cube_write :: "string \<Rightarrow> fits \<Rightarrow> unit action" where
  "cube_write p f s =
     (case fs s p of
        None \<Rightarrow> (Inr (), s\<lparr>fs := (fs s)(p \<mapsto> File (Fits f))\<rparr>)
      | Some n \<Rightarrow> (Inl (OSError (''File '' @ p @ '' already exists.'')), s))"

subsection \<open>Paths and strings\<close>

text \<open>\<^verbatim>\<open>posixpath.join\<close> of two parts and \<^verbatim>\<open>posixpath.basename\<close>.\<close>

definition os_path_join :: "string \<Rightarrow> string \<Rightarrow> string" where
  "os_path_join a b =
     (if b \<noteq> [] \<and> hd b = CHR ''/'' then b
      else if a = [] \<or> last a = CHR ''/'' then a @ b
      else a @ ''/'' @ b)"

definition basename :: "string \<Rightarrow> string" where
  "basename p = rev (takeWhile (\<lambda>c. c \<noteq> CHR ''/'') (rev p))"

text \<open>
  \<^verbatim>\<open>re.sub(suf + '$', '', x)\<close> for a pattern \<open>suf\<close> that matches itself only: the suffix is
  cut off when \<open>x\<close> ends with it. The resolver builds its pattern from the resolution tag;
  the tags of the key handler (\<^verbatim>\<open>10p72\<close>) are letters and digits.
\<close>

definition re_sub_suffix :: "string \<Rightarrow> string \<Rightarrow> string" where
  "re_sub_suffix suf x =
     (if length suf \<le> length x \<and> drop (length x - length suf) x = suf
      then take (length x - length suf) x else x)"

text \<open>\<^verbatim>\<open>str.strip()\<close>: white space is cut off at both ends.\<close>

definition isspace :: "char \<Rightarrow> bool" where
  "isspace c = (c \<in> set [CHR '' '', CHR 0x09, CHR 0x0A, CHR 0x0B, CHR 0x0C, CHR 0x0D])"

definition strip :: "string \<Rightarrow> string" where
  "strip x = rev (dropWhile isspace (rev (dropWhile isspace x)))"

subsection \<open>The collaborators\<close>

text \<open>
  The key handler (\<^verbatim>\<open>self._kh\<close>), the masking routines (\<^verbatim>\<open>scMaskingRoutines\<close>), the
  product routines (\<^verbatim>\<open>scProductRoutines\<close>) and what is read of astropy are not among the
  sources. They are parameters: every theorem holds for each choice of them.
\<close>

datatype kind = Moment0 | Moment1 | Moment2 | Ew | Tmax | Vmax | Vquad

datatype unit_of = K_km_per_s | Km_per_s | Kelvin

record masked_cube =
  cube_data :: "rat ndarray"
  cube_wcs :: wcs
  cube_mask :: "bool ndarray"

record env =
  get_postprocess_dir_for_target :: "string \<Rightarrow> string"
  get_product_dir_for_target :: "string \<Rightarrow> string"
  get_res_for_config :: "string \<Rightarrow> rat list option"
  get_tag_for_res :: "rat \<Rightarrow> string"
  get_cube_filename :: "string \<Rightarrow> string \<Rightarrow> string \<Rightarrow> string \<Rightarrow> string"
  abspath :: "string \<Rightarrow> string"
  str_round :: "rat \<Rightarrow> string"
  noise_cube :: "rat ndarray \<Rightarrow> rat ndarray"
  simple_mask :: "rat ndarray \<Rightarrow> rat ndarray \<Rightarrow> bool ndarray"
  WCS :: "header \<Rightarrow> wcs"
  to_header :: "wcs \<Rightarrow> header"
  product_maps :: "kind \<Rightarrow> masked_cube \<Rightarrow> masked_cube \<Rightarrow> fits \<times> fits"

subsection \<open>The resolver of file names\<close>

text \<open>
  A value of the table \<^verbatim>\<open>fname_dict\<close>: the sub-dictionary of a resolution tag, or the
  string kept under the reserved key \<^verbatim>\<open>res_lowresmask\<close>.
\<close>

datatype entry = Paths "string \<rightharpoonup> string" | Str string

type_synonym table = "string \<rightharpoonup> entry"

text \<open>What \<^verbatim>\<open>_fname_dict\<close> returns: \<^verbatim>\<open>()\<close> after an unset argument, the table otherwise.\<close>

datatype fname_result = EmptyTuple | Table table

record scan =
  tbl :: table
  lowest_res_tag :: string
  lowest_res :: "rat option"

text \<open>
  The sub-dictionary the loop fills for a tag whose cube is on disk (lines 131, 132 and
  141 to 143): the path of the cube and the four output names.
\<close>

definition cube_entry :: "string \<Rightarrow> string \<Rightarrow> string \<Rightarrow> string \<Rightarrow> string \<rightharpoonup> string" where
  "cube_entry indir outdir cube_filename res_tag =
     (let image_basename =
            re_sub_suffix (''_pbcorr_trimmed_k_res'' @ res_tag @ ''.fits'') (basename cube_filename);
          out = (\<lambda>tag. os_path_join outdir (image_basename @ ''_'' @ tag @ ''_res'' @ res_tag @ ''.fits''))
      in [''pbcorr_trimmed_k'' \<mapsto> os_path_join indir cube_filename,
          ''hybridmask'' \<mapsto> out ''hybridmask'',
          ''signalmask'' \<mapsto> out ''signalmask'',
          ''broad'' \<mapsto> out ''broad'',
          ''strict'' \<mapsto> out ''strict''])"

text \<open>The body of the loop over \<^verbatim>\<open>res_list\<close> (lines 120 to 146).\<close>

definition fname_step ::
  "env \<Rightarrow> string \<Rightarrow> string \<Rightarrow> string \<Rightarrow> string \<Rightarrow> string \<Rightarrow> rat \<Rightarrow> scan \<times> world \<Rightarrow> scan \<times> world"
where
  "fname_step E target config product indir outdir this_res a =
     (let acc = fst a; s = snd a;
          res_tag = get_tag_for_res E this_res;
          cube_filename = get_cube_filename E target config product (''pbcorr_trimmed_k'' @ ''_res'' @ res_tag)
      in if isfile s (os_path_join indir cube_filename) then
           (acc\<lparr>tbl := (tbl acc)(res_tag \<mapsto> Paths (cube_entry indir outdir cube_filename res_tag)),
                lowest_res_tag :=
                  (case lowest_res acc of
                     None \<Rightarrow> res_tag
                   | Some l \<Rightarrow> if this_res > l then res_tag else lowest_res_tag acc),
                lowest_res :=
                  (case lowest_res acc of
                     None \<Rightarrow> Some this_res
                   | Some l \<Rightarrow> if this_res > l then Some this_res else Some l)\<rparr>,
            s)
         else
           (acc,
            logger WARNING
              (''Cube with tag '' @ res_tag @ '' at '' @ str_round E this_res
                 @ '' arcsec resolution was not found: \"'' @ os_path_join indir cube_filename @ ''\"'') s))"

text \<open>\<^verbatim>\<open>if not os.path.isdir(outdir): os.makedirs(outdir)\<close> (lines 109 and 110).\<close>

definition ensure_dir :: "string \<Rightarrow> unit action" where
  "ensure_dir p s = (if \<not> isdir s p then makedirs p s else (Inr (), s))"

text \<open>
  The rest of \<^verbatim>\<open>_fname_dict\<close>, from the list of resolutions to the reserved key (lines
  112 to 154).
\<close>

definition fname_table ::
  "env \<Rightarrow> string \<Rightarrow> string \<Rightarrow> string \<Rightarrow> string \<Rightarrow> string \<Rightarrow> string \<Rightarrow> fname_result action"
where
  "fname_table E t c p indir outdir res_lowresmask s =
     (case get_res_for_config E c of
        None \<Rightarrow>
          (Inl (Exception (''No target resolutions found for target '' @ t @ '' and config'' @ c)),
           logger ERROR (''No target resolutions found for target '' @ t @ '' and config'' @ c) s)
      | Some res_list \<Rightarrow>
          (let a = fold (fname_step E t c p indir outdir) res_list
                     (\<lparr>tbl = Map.empty, lowest_res_tag = '''', lowest_res = None\<rparr>, s);
               fd = tbl (fst a)
           in (Inr (Table
                 (if res_lowresmask \<noteq> '''' \<and> res_lowresmask \<in> dom fd
                  then fd(''res_lowresmask'' \<mapsto> Str res_lowresmask)
                  else fd(''res_lowresmask'' \<mapsto> Str (lowest_res_tag (fst a))))),
               snd a)))"

text \<open>\<^verbatim>\<open>_fname_dict\<close> (lines 78 to 154).\<close>

definition fname_dict ::
  "env \<Rightarrow> string option \<Rightarrow> string option \<Rightarrow> string option \<Rightarrow> string \<Rightarrow> string \<Rightarrow> fname_result action"
where
  "fname_dict E target config product extra_ext res_lowresmask s =
     (case target of
        None \<Rightarrow> (Inr EmptyTuple, logger ERROR ''Need a target.'' s)
      | Some t \<Rightarrow>
     (case product of
        None \<Rightarrow> (Inr EmptyTuple, logger ERROR ''Need a product.'' s)
      | Some p \<Rightarrow>
     (case config of
        None \<Rightarrow> (Inr EmptyTuple, logger ERROR ''Need a config.'' s)
      | Some c \<Rightarrow>
     (let indir = abspath E (get_postprocess_dir_for_target E t);
          s1 = logger DEBUG (''indir: '' @ indir) s;
          outdir = abspath E (get_product_dir_for_target E t);
          s2 = logger DEBUG (''outdir: '' @ outdir) s1
      in and_then (ensure_dir outdir) (\<lambda>u. fname_table E t c p indir outdir res_lowresmask) s2))))"

subsection \<open>The low-resolution mask recipe\<close>

definition lookup :: "('k \<rightharpoonup> 'v) \<Rightarrow> 'k \<Rightarrow> ('k \<Rightarrow> string) \<Rightarrow> error + 'v" where
  "lookup m k repr = (case m k of None \<Rightarrow> Inl (KeyError (repr k)) | Some v \<Rightarrow> Inr v)"

text \<open>
  \<^verbatim>\<open>fname_dict[tag][key]\<close>: indexing \<^verbatim>\<open>()\<close> or a string with a string is a TypeError, a
  missing key a KeyError.
\<close>

definition subscript2 :: "fname_result \<Rightarrow> string \<Rightarrow> string \<Rightarrow> error + string" where
  "subscript2 r tag key =
     (case r of
        EmptyTuple \<Rightarrow> Inl (TypeError ''tuple indices must be integers or slices, not str'')
      | Table fd \<Rightarrow>
          (case fd tag of
             None \<Rightarrow> Inl (KeyError tag)
           | Some (Str x) \<Rightarrow> Inl (TypeError ''string indices must be integers'')
           | Some (Paths e) \<Rightarrow> lookup e key id))"

text \<open>\<^verbatim>\<open>fname_dict['res_lowresmask']\<close>, used as a key afterwards.\<close>

definition subscript_lowres :: "fname_result \<Rightarrow> error + string" where
  "subscript_lowres r =
     (case r of
        EmptyTuple \<Rightarrow> Inl (TypeError ''tuple indices must be integers or slices, not str'')
      | Table fd \<Rightarrow>
          (case fd ''res_lowresmask'' of
             None \<Rightarrow> Inl (KeyError ''res_lowresmask'')
           | Some (Paths e) \<Rightarrow> Inl (TypeError ''unhashable type: dict'')
           | Some (Str x) \<Rightarrow> Inr x))"

definition pure :: "error + 'a \<Rightarrow> 'a action" where
  "pure r s = (r, s)"

text \<open>The three checks both recipes start with (lines 220 to 228 and 257 to 265).\<close>

definition check_input :: "string option \<Rightarrow> string option \<Rightarrow> string option \<Rightarrow> unit action" where
  "check_input target product config s =
     (if target = None then
        (Inl (Exception ''Please input a target.''), logger ERROR ''Please input a target.'' s)
      else if product = None then
        (Inl (Exception ''Please input a product.''), logger ERROR ''Please input a product.'' s)
      else if config = None then
        (Inl (Exception ''Please input a config.''), logger ERROR ''Please input a config.'' s)
      else (Inr (), s))"

definition recipe_building_low_resolution_mask ::
  "env \<Rightarrow> string option \<Rightarrow> string option \<Rightarrow> string option \<Rightarrow> string \<Rightarrow> (bool ndarray \<times> string) action"
where
  "recipe_building_low_resolution_mask E target product config res_lowresmask =
     and_then (check_input target product config) (\<lambda>u.
     and_then (fname_dict E target config product '''' res_lowresmask) (\<lambda>fd.
     and_then (pure (subscript_lowres fd)) (\<lambda>lowres_cube_tag.
     and_then (pure (subscript2 fd lowres_cube_tag ''pbcorr_trimmed_k'')) (\<lambda>path.
     and_then (fits_open path) (\<lambda>f.
       (let lowres_cube_data = dat f;
            lowres_cube_noise = noise_cube E lowres_cube_data;
            lowres_cube_mask = simple_mask E lowres_cube_data lowres_cube_noise
        in pure (Inr (lowres_cube_mask, lowres_cube_tag))))))))"

text \<open>The value of the parameter \<^verbatim>\<open>res_lowresmask\<close> when the caller gives none.\<close>

definition default_res_lowresmask :: string where
  "default_res_lowresmask = ''10p72''"

subsection \<open>The mask writer\<close>

text \<open>
  Assignment to a key of an astropy header: a \<^verbatim>\<open>COMMENT\<close> card is appended, another
  key replaces its first card or is appended. (astropy splits a comment longer than one
  card over several cards; the text is kept whole here.)
\<close>

fun header_update :: "string \<Rightarrow> string \<Rightarrow> header \<Rightarrow> header" where
  "header_update k v [] = [(k, v)]"
| "header_update k v (c # cs) = (if fst c = k then (k, v) # cs else c # header_update k v cs)"

definition header_set :: "string \<Rightarrow> string \<Rightarrow> header \<Rightarrow> header" where
  "header_set k v h = (if k = ''COMMENT'' then h @ [(k, v)] else header_update k v h)"

datatype comments = Scalar string | Lines "string list"

definition copy_beam :: "header \<Rightarrow> header \<Rightarrow> header" where
  "copy_beam header header_to_write =
     fold (\<lambda>key h. case map_of header key of None \<Rightarrow> h | Some v \<Rightarrow> header_set key v h)
       [''BMAJ'', ''BMIN'', ''BPA''] header_to_write"

definition add_comments :: "comments \<Rightarrow> header \<Rightarrow> header" where
  "add_comments cs header_to_write =
     header_set ''COMMENT'' ''''
       (fold (\<lambda>comment h. header_set ''COMMENT'' (strip comment) h)
          (case cs of Scalar c \<Rightarrow> [c] | Lines l \<Rightarrow> l)
          (header_set ''COMMENT'' '''' header_to_write))"

text \<open>\<^verbatim>\<open>mask.astype(int)\<close>.\<close>

definition astype_int :: "bool ndarray \<Rightarrow> rat ndarray" where
  "astype_int m = \<lparr>shape = shape m, elems = map (\<lambda>b. if b then 1 else 0) (elems m)\<rparr>"

definition task_writing_mask ::
  "env \<Rightarrow> bool ndarray option \<Rightarrow> wcs option \<Rightarrow> header option \<Rightarrow> comments option \<Rightarrow> string option
     \<Rightarrow> unit action"
where
  "task_writing_mask E mask' w header cs outfile s =
     (if mask' \<noteq> None \<and> w \<noteq> None \<and> outfile \<noteq> None then
        (let s1 = (if isfile s (the outfile) then remove (the outfile) s else s);
             h0 = to_header E (the w);
             h1 = (case header of None \<Rightarrow> h0 | Some h \<Rightarrow> copy_beam h h0);
             h2 = (case cs of None \<Rightarrow> h1 | Some c \<Rightarrow> add_comments c h1)
         in cube_write (the outfile) \<lparr>hdr = h2, dat = astype_int (the mask')\<rparr> s1)
      else (Inr (), s))"

subsection \<open>The product writer\<close>

record process_dict =
  pd_outfile :: string
  pd_errorfile :: string
  pd_func :: kind
  pd_unit :: unit_of

record flags =
  do_moment0 :: bool
  do_moment1 :: bool
  do_moment2 :: bool
  do_ew :: bool
  do_tmax :: bool
  do_vmax :: bool
  do_vquad :: bool
  do_errormaps :: bool

definition default_flags :: flags where
  "default_flags =
     \<lparr>do_moment0 = True, do_moment1 = True, do_moment2 = True, do_ew = True, do_tmax = True,
      do_vmax = True, do_vquad = True, do_errormaps = True\<rparr>"

definition process_entry :: "string \<Rightarrow> string \<Rightarrow> kind \<Rightarrow> unit_of \<Rightarrow> process_dict" where
  "process_entry commonoutfitsname suffix k u =
     \<lparr>pd_outfile = commonoutfitsname @ ''_'' @ suffix @ ''.fits'',
      pd_errorfile = commonoutfitsname @ ''_e'' @ suffix @ ''.fits'',
      pd_func = k, pd_unit = u\<rparr>"

definition process_list :: "flags \<Rightarrow> string \<Rightarrow> process_dict list" where
  "process_list fl commonoutfitsname =
     (if do_moment0 fl then [process_entry commonoutfitsname ''mom0'' Moment0 K_km_per_s] else [])
     @ (if do_moment1 fl then [process_entry commonoutfitsname ''mom1'' Moment1 Km_per_s] else [])
     @ (if do_moment2 fl then [process_entry commonoutfitsname ''mom2'' Moment2 Km_per_s] else [])
     @ (if do_ew fl then [process_entry commonoutfitsname ''ew'' Ew Km_per_s] else [])
     @ (if do_tmax fl then [process_entry commonoutfitsname ''tmax'' Tmax Kelvin] else [])
     @ (if do_vmax fl then [process_entry commonoutfitsname ''vmax'' Vmax Km_per_s] else [])
     @ (if do_vquad fl then [process_entry commonoutfitsname ''vquad'' Vquad Km_per_s] else [])"

text \<open>A \<^verbatim>\<open>for\<close> loop whose body may raise: the first exception ends it.\<close>

fun for_each :: "('a \<Rightarrow> unit action) \<Rightarrow> 'a list \<Rightarrow> unit action" where
  "for_each f [] s = (Inr (), s)"
| "for_each f (x # xs) s =
     (case f x s of (Inl e, s') \<Rightarrow> (Inl e, s') | (Inr u, s') \<Rightarrow> for_each f xs s')"

text \<open>The body of the loop that deletes old files (lines 413 to 421).\<close>

definition delete_old_files :: "bool \<Rightarrow> process_dict \<Rightarrow> unit action" where
  "delete_old_files errormaps pd s =
     (let outfile = pd_outfile pd;
          errorfile = (if errormaps then Some (pd_errorfile pd) else None);
          s1 = (if isfile s outfile
                then logger INFO (''Deleting old file \"'' @ outfile @ ''\"'') (remove outfile s)
                else s)
      in case isfile_arg s1 errorfile of
           Inl e \<Rightarrow> (Inl e, s1)
         | Inr b \<Rightarrow>
             (Inr (),
              if b then logger INFO (''Deleting old file \"'' @ the errorfile @ ''\"'')
                          (remove (the errorfile) s1)
              else s1))"

text \<open>
  Modelled from the spec: the functions \<^verbatim>\<open>write_moment0\<close> to \<^verbatim>\<open>write_vquad\<close> of
  \<^verbatim>\<open>scProductRoutines\<close>, which are not among the sources. The spec has each of them run
  the computation of its kind on the masked cube and the masked noise cube and write the
  map to \<^verbatim>\<open>outfile\<close> and the error map to \<^verbatim>\<open>errorfile\<close> (when one is named).
\<close>

definition processfunction ::
  "env \<Rightarrow> kind \<Rightarrow> masked_cube \<Rightarrow> masked_cube \<Rightarrow> string \<Rightarrow> string option \<Rightarrow> unit action"
where
  "processfunction E k cube rms outfile errorfile s =
     (let maps = product_maps E k cube rms;
          s1 = s\<lparr>fs := (fs s)(outfile \<mapsto> File (Fits (fst maps)))\<rparr>
      in (Inr (),
          case errorfile of
            None \<Rightarrow> s1
          | Some ef \<Rightarrow> s1\<lparr>fs := (fs s1)(ef \<mapsto> File (Fits (snd maps)))\<rparr>))"

text \<open>The body of the loop that makes the products (lines 424 to 432).\<close>

definition make_product ::
  "env \<Rightarrow> masked_cube \<Rightarrow> masked_cube \<Rightarrow> bool \<Rightarrow> process_dict \<Rightarrow> unit action"
where
  "make_product E cube rms errormaps pd s =
     (let outfile = pd_outfile pd;
          errorfile = (if errormaps then Some (pd_errorfile pd) else None)
      in processfunction E (pd_func pd) cube rms outfile errorfile
           (logger INFO (''Producing \"'' @ outfile @ ''\"'') s))"

definition task_writting_products ::
  "env \<Rightarrow> masked_cube \<Rightarrow> masked_cube \<Rightarrow> string \<Rightarrow> flags \<Rightarrow> unit action"
where
  "task_writting_products E cube rms commonoutfitsfile fl =
     (let commonoutfitsname = re_sub_suffix ''.fits'' commonoutfitsfile;
          pl = process_list fl commonoutfitsname
      in and_then (for_each (delete_old_files (do_errormaps fl)) pl)
           (\<lambda>u. for_each (make_product E cube rms (do_errormaps fl)) pl))"

subsection \<open>The recipe for all resolutions\<close>

text \<open>
  \<^verbatim>\<open>np.logical_or\<close> with numpy's broadcasting: the shapes are aligned at their last axes,
  an axis of length one is repeated, and shapes that do not fit raise ValueError.
  \<open>broadcast_shapes\<close> works on reversed shapes.
\<close>

fun broadcast_shapes :: "nat list \<Rightarrow> nat list \<Rightarrow> nat list option" where
  "broadcast_shapes [] ys = Some ys"
| "broadcast_shapes (x # xs) [] = Some (x # xs)"
| "broadcast_shapes (x # xs) (y # ys) =
     (if x = y \<or> y = 1 then map_option ((#) x) (broadcast_shapes xs ys)
      else if x = 1 then map_option ((#) y) (broadcast_shapes xs ys)
      else None)"

text \<open>All indices of an array of a shape, in row-major order.\<close>

fun indices :: "nat list \<Rightarrow> nat list list" where
  "indices [] = [[]]"
| "indices (n # ns) = concat (map (\<lambda>k. map ((#) k) (indices ns)) [0..<n])"

definition offset_step :: "nat \<Rightarrow> nat \<times> nat \<Rightarrow> nat" where
  "offset_step acc nk = acc * fst nk + (if fst nk = 1 then 0 else snd nk)"

text \<open>Where the element at an index of the broadcast result lies in an operand of shape \<open>sh\<close>.\<close>

definition offset :: "nat list \<Rightarrow> nat list \<Rightarrow> nat" where
  "offset sh ix = foldl offset_step 0 (zip sh (drop (length ix - length sh) ix))"

definition broadcast_to :: "nat list \<Rightarrow> 'a ndarray \<Rightarrow> 'a list" where
  "broadcast_to sh a = map (\<lambda>ix. elems a ! offset (shape a) ix) (indices sh)"

definition logical_or :: "bool ndarray \<Rightarrow> bool ndarray \<Rightarrow> error + bool ndarray" where
  "logical_or a b =
     (case broadcast_shapes (rev (shape a)) (rev (shape b)) of
        None \<Rightarrow> Inl (ValueError ''operands could not be broadcast together'')
      | Some r \<Rightarrow>
          Inr \<lparr>shape = rev r,
               elems = map2 (\<or>) (broadcast_to (rev r) a) (broadcast_to (rev r) b)\<rparr>)"

text \<open>\<^verbatim>\<open>SpectralCube(data=..., wcs=..., mask=BooleanArrayMask(mask, wcs=...))\<close>.\<close>

definition SpectralCube :: "rat ndarray \<Rightarrow> wcs \<Rightarrow> bool ndarray \<Rightarrow> masked_cube" where
  "SpectralCube d w m = \<lparr>cube_data = d, cube_wcs = w, cube_mask = m\<rparr>"

text \<open>The body of the loop over the resolutions, under \<^verbatim>\<open>if res_tag in fname_dict\<close> (lines 288 to 342).\<close>

definition build_resolution ::
  "env \<Rightarrow> fname_result \<Rightarrow> bool ndarray \<Rightarrow> string \<Rightarrow> string \<Rightarrow> unit action"
where
  "build_resolution E fd lowres_cube_mask lowres_cube_tag res_tag =
     and_then (pure (subscript2 fd res_tag ''pbcorr_trimmed_k'')) (\<lambda>path.
     and_then (fits_open path) (\<lambda>hdu.
       (let cube = dat hdu;
            cube_header = hdr hdu;
            cube_w = WCS E cube_header;
            cube_noise = noise_cube E cube;
            cube_signal_mask = simple_mask E cube cube_noise
        in
     and_then (pure (logical_or cube_signal_mask lowres_cube_mask)) (\<lambda>cube_hybrid_mask.
     and_then (pure (subscript2 fd res_tag ''hybridmask'')) (\<lambda>hybridmask.
     and_then (task_writing_mask E (Some cube_hybrid_mask) (Some cube_w) (Some cube_header)
                 (Some (Lines
                    [''This hybridmask is made from the OR combination of the signalmask and lowresmask.'',
                     ''This signalmask is made with the '' @ res_tag @ ''arcsec resolution cube.'',
                     ''This lowresmask is made with the '' @ lowres_cube_tag @ ''arcsec resolution cube.'']))
                 (Some hybridmask)) (\<lambda>u.
     and_then (pure (subscript2 fd res_tag ''signalmask'')) (\<lambda>signalmask.
     and_then (task_writing_mask E (Some cube_signal_mask) (Some cube_w) (Some cube_header)
                 (Some (Lines [''This signalmask is made with the '' @ res_tag @ ''arcsec resolution cube.'']))
                 (Some signalmask)) (\<lambda>u.
       (let broadcube_data = SpectralCube cube cube_w cube_hybrid_mask;
            broadcube_noise = SpectralCube cube_noise cube_w cube_hybrid_mask;
            strictcube_data = SpectralCube cube cube_w cube_signal_mask;
            strictcube_noise = SpectralCube cube_noise cube_w cube_signal_mask
        in
     and_then (pure (subscript2 fd res_tag ''broad'')) (\<lambda>broad.
     and_then (task_writting_products E broadcube_data broadcube_noise broad default_flags) (\<lambda>u.
     and_then (pure (subscript2 fd res_tag ''strict'')) (\<lambda>strict.
       task_writting_products E strictcube_data strictcube_noise strict default_flags))))))))))))"

text \<open>\<^verbatim>\<open>res_tag in fname_dict\<close>: nothing is in \<^verbatim>\<open>()\<close>.\<close>

definition contains :: "fname_result \<Rightarrow> string \<Rightarrow> bool" where
  "contains r tag = (case r of EmptyTuple \<Rightarrow> False | Table fd \<Rightarrow> tag \<in> dom fd)"

definition resolution_step ::
  "env \<Rightarrow> fname_result \<Rightarrow> bool ndarray \<Rightarrow> string \<Rightarrow> rat \<Rightarrow> unit action"
where
  "resolution_step E fd lowres_cube_mask lowres_cube_tag this_res s =
     (let res_tag = get_tag_for_res E this_res
      in if contains fd res_tag
         then build_resolution E fd lowres_cube_mask lowres_cube_tag res_tag s
         else (Inr (), s))"

text \<open>
  When \<^verbatim>\<open>lowres_cube_mask\<close> or \<^verbatim>\<open>lowres_cube_tag\<close> is None, the recipe calls the
  low-resolution recipe with \<^verbatim>\<open>target=this_target\<close> (line 269). No local or global
  variable has that name (\<^verbatim>\<open>this_target\<close> is a loop variable of \<^verbatim>\<open>loop_products_making\<close>),
  so evaluating the first argument raises NameError before anything is called.
\<close>

definition recipe_building_all_resolution_masks ::
  "env \<Rightarrow> string option \<Rightarrow> string option \<Rightarrow> string option \<Rightarrow> bool ndarray option \<Rightarrow> string option
     \<Rightarrow> unit action"
where
  "recipe_building_all_resolution_masks E target product config lowres_cube_mask lowres_cube_tag =
     and_then (check_input target product config) (\<lambda>u.
     and_then (if lowres_cube_mask = None \<or> lowres_cube_tag = None
               then pure (Inl (NameError ''name this_target is not defined''))
               else pure (Inr (the lowres_cube_mask, the lowres_cube_tag))) (\<lambda>lowres.
     and_then (fname_dict E target config product '''' '''') (\<lambda>fd.
       (case get_res_for_config E (the config) of
          None \<Rightarrow> pure (Inl (TypeError ''NoneType object is not iterable''))
        | Some res_list \<Rightarrow> for_each (resolution_step E fd (fst lowres) (snd lowres)) res_list))))"

section \<open>The vocabulary of the claims\<close>

text \<open>
  The directories of a target, the name and the path of the cube of a resolution tag, and
  whether the cube of a resolution is on disk: the expressions \<^verbatim>\<open>_fname_dict\<close> computes
  at lines 101 to 130, named.
\<close>

definition indir_of :: "env \<Rightarrow> string \<Rightarrow> string" where
  "indir_of E t = abspath E (get_postprocess_dir_for_target E t)"

definition outdir_of :: "env \<Rightarrow> string \<Rightarrow> string" where
  "outdir_of E t = abspath E (get_product_dir_for_target E t)"

definition cube_name :: "env \<Rightarrow> string \<Rightarrow> string \<Rightarrow> string \<Rightarrow> string \<Rightarrow> string" where
  "cube_name E t c p res_tag = get_cube_filename E t c p (''pbcorr_trimmed_k_res'' @ res_tag)"

definition cube_path :: "env \<Rightarrow> string \<Rightarrow> string \<Rightarrow> string \<Rightarrow> string \<Rightarrow> string" where
  "cube_path E t c p res_tag = os_path_join (indir_of E t) (cube_name E t c p res_tag)"

definition on_disk :: "env \<Rightarrow> world \<Rightarrow> string \<Rightarrow> string \<Rightarrow> string \<Rightarrow> rat \<Rightarrow> bool" where
  "on_disk E s t c p r = isfile s (cube_path E t c p (get_tag_for_res E r))"

text \<open>The resolutions of the list whose cube is on disk, in the order of the list.\<close>

definition present :: "env \<Rightarrow> world \<Rightarrow> string \<Rightarrow> string \<Rightarrow> string \<Rightarrow> rat list \<Rightarrow> rat list" where
  "present E s t c p rl = filter (on_disk E s t c p) rl"

text \<open>
  The spec's fallback, in its words: the tag of the coarsest (numerically largest)
  resolution; the first one in the list when several are equal; the empty tag when
  there is none.
\<close>

definition coarsest_tag :: "env \<Rightarrow> rat list \<Rightarrow> string" where
  "coarsest_tag E rs =
     (if rs = [] then '''' else get_tag_for_res E (hd (filter (\<lambda>r. r = Max (set rs)) rs)))"

text \<open>
  The spec's selection of the low-resolution tag, in its words: the override when it is
  given and has an entry, the fallback otherwise.
\<close>

definition lowres_choice :: "env \<Rightarrow> string \<Rightarrow> rat list \<Rightarrow> string" where
  "lowres_choice E res_lowresmask ps =
     (if res_lowresmask \<noteq> '''' \<and> res_lowresmask \<in> get_tag_for_res E ` set ps
      then res_lowresmask else coarsest_tag E ps)"

text \<open>The warning logged for a resolution whose cube is not on disk (line 146).\<close>

definition missing_warning :: "env \<Rightarrow> string \<Rightarrow> string \<Rightarrow> string \<Rightarrow> rat \<Rightarrow> level \<times> string" where
  "missing_warning E t c p r =
     (WARNING, ''Cube with tag '' @ get_tag_for_res E r @ '' at '' @ str_round E r
        @ '' arcsec resolution was not found: \"'' @ cube_path E t c p (get_tag_for_res E r) @ ''\"'')"

text \<open>The table with one entry for the tag of each resolution of a list.\<close>

definition table_of :: "env \<Rightarrow> string \<Rightarrow> string \<Rightarrow> string \<Rightarrow> rat list \<Rightarrow> table" where
  "table_of E t c p rs tag =
     (if tag \<in> get_tag_for_res E ` set rs
      then Some (Paths (cube_entry (indir_of E t) (outdir_of E t) (cube_name E t c p tag) tag))
      else None)"

definition scan0 :: scan where
  "scan0 = \<lparr>tbl = Map.empty, lowest_res_tag = '''', lowest_res = None\<rparr>"

text \<open>The file system once the product directory of the target is there.\<close>

definition with_outdir :: "env \<Rightarrow> string \<Rightarrow> world \<Rightarrow> string \<rightharpoonup> node" where
  "with_outdir E t s = (if isdir s (outdir_of E t) then fs s else (fs s)(outdir_of E t \<mapsto> Dir))"

text \<open>The two debug records \<^verbatim>\<open>_fname_dict\<close> starts with (lines 103 and 107).\<close>

definition prelude_log :: "env \<Rightarrow> string \<Rightarrow> (level \<times> string) list" where
  "prelude_log E t = [(DEBUG, ''indir: '' @ indir_of E t), (DEBUG, ''outdir: '' @ outdir_of E t)]"

text \<open>What the low-resolution recipe does once the table is there.\<close>

definition read_lowres :: "env \<Rightarrow> string \<Rightarrow> string \<Rightarrow> string \<Rightarrow> string \<Rightarrow> rat list \<Rightarrow> (bool ndarray \<times> string) action" where
  "read_lowres E t c p ch ps s =
     (if ch = ''res_lowresmask'' then (Inl (TypeError ''string indices must be integers''), s)
      else if ch \<notin> get_tag_for_res E ` set ps then (Inl (KeyError ch), s)
      else (case fits_open (cube_path E t c p ch) s of
              (Inl e, s') \<Rightarrow> (Inl e, s')
            | (Inr f, s') \<Rightarrow> (Inr (simple_mask E (dat f) (noise_cube E (dat f)), ch), s')))"

definition mask_header :: "env \<Rightarrow> wcs \<Rightarrow> header option \<Rightarrow> comments option \<Rightarrow> header" where
  "mask_header E w header cs =
     (let h0 = to_header E w;
          h1 = (case header of None \<Rightarrow> h0 | Some h \<Rightarrow> copy_beam h h0)
      in case cs of None \<Rightarrow> h1 | Some c \<Rightarrow> add_comments c h1)"

definition mask_file :: "env \<Rightarrow> bool ndarray \<Rightarrow> wcs \<Rightarrow> header option \<Rightarrow> comments option \<Rightarrow> fits" where
  "mask_file E m w header cs = \<lparr>hdr = mask_header E w header cs, dat = astype_int m\<rparr>"

definition is_fits :: "world \<Rightarrow> string \<Rightarrow> bool" where
  "is_fits s q = (case fs s q of Some (File (Fits f)) \<Rightarrow> True | Some (File NotFits) \<Rightarrow> False
                   | Some Dir \<Rightarrow> False | None \<Rightarrow> False)"

definition touched :: "process_dict list \<Rightarrow> string list" where
  "touched pl = concat (map (\<lambda>pd. [pd_outfile pd, pd_errorfile pd]) pl)"

definition product_files :: "flags \<Rightarrow> string \<Rightarrow> string list" where
  "product_files fl commonoutfitsfile = touched (process_list fl (re_sub_suffix ''.fits'' commonoutfitsfile))"

definition image_base :: "env \<Rightarrow> string \<Rightarrow> string \<Rightarrow> string \<Rightarrow> string \<Rightarrow> string" where
  "image_base E t c p tag =
     re_sub_suffix (''_pbcorr_trimmed_k_res'' @ tag @ ''.fits'') (basename (cube_name E t c p tag))"

definition out_path :: "env \<Rightarrow> string \<Rightarrow> string \<Rightarrow> string \<Rightarrow> string \<Rightarrow> string \<Rightarrow> string" where
  "out_path E t c p tag k =
     os_path_join (outdir_of E t) (image_base E t c p tag @ ''_'' @ k @ ''_res'' @ tag @ ''.fits'')"

definition outputs :: "env \<Rightarrow> string \<Rightarrow> string \<Rightarrow> string \<Rightarrow> string \<Rightarrow> string list" where
  "outputs E t c p tag =
     [out_path E t c p tag ''hybridmask'', out_path E t c p tag ''signalmask'']
     @ product_files default_flags (out_path E t c p tag ''broad'')
     @ product_files default_flags (out_path E t c p tag ''strict'')"

definition signal_of :: "env \<Rightarrow> fits \<Rightarrow> bool ndarray" where
  "signal_of E f = simple_mask E (dat f) (noise_cube E (dat f))"

definition hybrid_comments :: "string \<Rightarrow> string \<Rightarrow> comments" where
  "hybrid_comments res_tag lowres_cube_tag =
     Lines [''This hybridmask is made from the OR combination of the signalmask and lowresmask.'',
            ''This signalmask is made with the '' @ res_tag @ ''arcsec resolution cube.'',
            ''This lowresmask is made with the '' @ lowres_cube_tag @ ''arcsec resolution cube.'']"

definition dir_prefix :: "string \<Rightarrow> string" where
  "dir_prefix d = (if d = [] \<or> last d = CHR ''/'' then d else d @ ''/'')"

text \<open>The table the recipe for all resolutions works with.\<close>

definition recipe_table :: "env \<Rightarrow> world \<Rightarrow> string \<Rightarrow> string \<Rightarrow> string \<Rightarrow> rat list \<Rightarrow> table" where
  "recipe_table E s t c p rl =
     (table_of E t c p (present E s t c p rl))
       (''res_lowresmask'' \<mapsto> Str (lowres_choice E '''' (present E s t c p rl)))"

section \<open>A small installation\<close>

text \<open>
  One target \<^verbatim>\<open>T\<close> with three resolutions under the configuration \<^verbatim>\<open>X\<close> (5, 10.72 = 268/25 and 20
  arcsec), the cubes of the last two on disk, each of two voxels. The theorems below are
  run on it.
\<close>

definition demo_tag :: "rat \<Rightarrow> string" where
  "demo_tag r =
     (if r = 5 then ''5p00'' else if r = 268 / 25 then ''10p72''
      else if r = 20 then ''20p00'' else ''other'')"

definition demo_env :: env where
  "demo_env =
     \<lparr>get_postprocess_dir_for_target = (\<lambda>t. ''/in''),
      get_product_dir_for_target = (\<lambda>t. ''/out''),
      get_res_for_config =
        (\<lambda>c. if c = ''X'' then Some [5, 268 / 25, 20] else if c = ''Z'' then Some [5] else None),
      get_tag_for_res = demo_tag,
      get_cube_filename = (\<lambda>t c p ext. t @ ''_'' @ ext @ ''.fits''),
      abspath = (\<lambda>p. p),
      str_round = demo_tag,
      noise_cube = (\<lambda>d. \<lparr>shape = shape d, elems = map (\<lambda>x. 1) (elems d)\<rparr>),
      simple_mask = (\<lambda>d n. \<lparr>shape = shape d, elems = map2 (\<lambda>x y. 5 * y < x) (elems d) (elems n)\<rparr>),
      WCS = (\<lambda>h. h),
      to_header = (\<lambda>w. w),
      product_maps =
        (\<lambda>k c r. (\<lparr>hdr = [], dat = \<lparr>shape = [], elems = []\<rparr>\<rparr>,
                  \<lparr>hdr = [], dat = \<lparr>shape = [], elems = []\<rparr>\<rparr>))\<rparr>"

definition demo_cube :: "rat list \<Rightarrow> node" where
  "demo_cube xs = File (Fits \<lparr>hdr = [], dat = \<lparr>shape = [2, 2, 2], elems = xs\<rparr>\<rparr>)"

definition demo_world :: world where
  "demo_world =
     \<lparr>fs = [''/in/T_pbcorr_trimmed_k_res10p72.fits'' \<mapsto> demo_cube [9, 0, 0, 0, 0, 0, 0, 0],
            ''/in/T_pbcorr_trimmed_k_res20p00.fits'' \<mapsto> demo_cube [0, 7, 0, 0, 0, 0, 0, 0]],
      logged = []\<rparr>"

section \<open>The resolver\<close>

lemmas demo_defs = demo_env_def demo_world_def demo_tag_def demo_cube_def

lemma Max_snoc: "ps \<noteq> [] \<Longrightarrow> Max (set (ps @ [x])) = max x (Max (set ps))"
  by simp

lemma coarsest_snoc:
  "coarsest_tag E (ps @ [x]) =
     (if (\<forall>r\<in>set ps. r < x) then get_tag_for_res E x else coarsest_tag E ps)"
proof (cases "ps = []")
  case True
  then show ?thesis by (simp add: coarsest_tag_def)
next
  case False
  define M where "M = Max (set ps)"
  have Min: "M \<in> set ps" unfolding M_def using False by (intro Max_in) auto
  have Mge: "r \<le> M" if "r \<in> set ps" for r unfolding M_def using that by (intro Max_ge) auto
  have m: "Max (set (ps @ [x])) = max x M" unfolding M_def using False by (rule Max_snoc)
  show ?thesis
  proof (cases "M < x")
    case True
    have lt: "r < x" if "r \<in> set ps" for r using Mge [OF that] True by auto
    then have "filter (\<lambda>r. r = x) ps = []" by (auto simp: filter_empty_conv)
    moreover have "max x M = x" using True by (simp add: max_def)
    ultimately have "coarsest_tag E (ps @ [x]) = get_tag_for_res E x"
      unfolding coarsest_tag_def m by simp
    then show ?thesis using lt by simp
  next
    case nl: False
    have "filter (\<lambda>r. r = M) ps \<noteq> []" using Min by (simp add: filter_empty_conv)
    moreover have "max x M = M" using nl by (simp add: max_def)
    ultimately have "coarsest_tag E (ps @ [x]) = coarsest_tag E ps"
      unfolding coarsest_tag_def m using False by (simp add: M_def)
    moreover have "\<not> (\<forall>r\<in>set ps. r < x)" using Min nl by blast
    ultimately show ?thesis by auto
  qed
qed

lemma fname_step_eq:
  "fname_step E t c p (indir_of E t) (outdir_of E t) r (a, s) =
     (if on_disk E s t c p r then
        (a\<lparr>tbl := (tbl a)(get_tag_for_res E r \<mapsto>
               Paths (cube_entry (indir_of E t) (outdir_of E t) (cube_name E t c p (get_tag_for_res E r)) (get_tag_for_res E r))),
           lowest_res_tag := (case lowest_res a of None \<Rightarrow> get_tag_for_res E r
                              | Some l \<Rightarrow> if r > l then get_tag_for_res E r else lowest_res_tag a),
           lowest_res := (case lowest_res a of None \<Rightarrow> Some r
                              | Some l \<Rightarrow> if r > l then Some r else Some l)\<rparr>, s)
      else (a, s\<lparr>logged := logged s @ [missing_warning E t c p r]\<rparr>))"
  by (simp add: fname_step_def on_disk_def cube_path_def cube_name_def missing_warning_def logger_def Let_def)

lemma fname_scan:
  "\<exists>a s'. fold (fname_step E t c p (indir_of E t) (outdir_of E t)) rl (scan0, s) = (a, s')
     \<and> fs s' = fs s
     \<and> logged s' = logged s @ map (missing_warning E t c p) (filter (\<lambda>r. \<not> on_disk E s t c p r) rl)
     \<and> lowest_res a = (if present E s t c p rl = [] then None else Some (Max (set (present E s t c p rl))))
     \<and> lowest_res_tag a = coarsest_tag E (present E s t c p rl)
     \<and> tbl a = table_of E t c p (present E s t c p rl)"
proof (induction rl rule: rev_induct)
  case Nil
  then show ?case by (auto simp: scan0_def present_def coarsest_tag_def table_of_def)
next
  case (snoc x xs)
  then obtain a s' where IH: "fold (fname_step E t c p (indir_of E t) (outdir_of E t)) xs (scan0, s) = (a, s')"
     "fs s' = fs s"
     "logged s' = logged s @ map (missing_warning E t c p) (filter (\<lambda>r. \<not> on_disk E s t c p r) xs)"
     "lowest_res a = (if present E s t c p xs = [] then None else Some (Max (set (present E s t c p xs))))"
     "lowest_res_tag a = coarsest_tag E (present E s t c p xs)"
     "tbl a = table_of E t c p (present E s t c p xs)"
    by blast
  have od: "on_disk E s' t c p x = on_disk E s t c p x"
    using IH(2) by (simp add: on_disk_def isfile_def)
  show ?case
  proof (cases "on_disk E s t c p x")
    case True
    define ps where "ps = present E s t c p xs"
    have pr: "present E s t c p (xs @ [x]) = ps @ [x]"
      using True by (simp add: present_def ps_def)
    have t: "(table_of E t c p ps)(get_tag_for_res E x \<mapsto>
               Paths (cube_entry (indir_of E t) (outdir_of E t) (cube_name E t c p (get_tag_for_res E x)) (get_tag_for_res E x)))
             = table_of E t c p (ps @ [x])"
      by (rule ext) (simp add: table_of_def)
    have lr: "(case lowest_res a of None \<Rightarrow> Some x | Some l \<Rightarrow> if x > l then Some x else Some l)
                = Some (Max (set (ps @ [x])))"
    proof (cases "ps = []")
      case True
      then show ?thesis using IH(4) by (simp add: ps_def)
    next
      case False
      then have "lowest_res a = Some (Max (set ps))" using IH(4) by (simp add: ps_def)
      then show ?thesis unfolding Max_snoc [OF False] by (simp add: max_def)
    qed
    have lt: "(case lowest_res a of None \<Rightarrow> get_tag_for_res E x
               | Some l \<Rightarrow> if x > l then get_tag_for_res E x else lowest_res_tag a)
                = coarsest_tag E (ps @ [x])"
    proof (cases "ps = []")
      case True
      then show ?thesis using IH(4) by (simp add: ps_def coarsest_tag_def)
    next
      case False
      then have "lowest_res a = Some (Max (set ps))" using IH(4) by (simp add: ps_def)
      then show ?thesis using False IH(5) unfolding coarsest_snoc by (simp add: ps_def)
    qed
    have "fname_step E t c p (indir_of E t) (outdir_of E t) x (a, s')
            = (a\<lparr>tbl := table_of E t c p (ps @ [x]), lowest_res_tag := coarsest_tag E (ps @ [x]),
                  lowest_res := Some (Max (set (ps @ [x])))\<rparr>, s')"
      unfolding fname_step_eq using True od lr lt t IH(6) by (simp add: ps_def)
    then show ?thesis
      using True IH(1,2,3) unfolding pr by simp
  next
    case False
    have pr: "present E s t c p (xs @ [x]) = present E s t c p xs"
      using False by (simp add: present_def)
    show ?thesis
      using False IH od by (simp add: fname_step_eq pr)
  qed
qed

lemma isfile_with_outdir:
  "\<not> isfile s (outdir_of E t) \<Longrightarrow> fs s' = with_outdir E t s \<Longrightarrow> isfile s' q = isfile s q"
  by (auto simp: isfile_def with_outdir_def isdir_def split: option.splits node.splits)

lemma on_disk_cong: "(\<And>q. isfile s' q = isfile s q) \<Longrightarrow> on_disk E s' t c p = on_disk E s t c p"
  by (rule ext) (simp add: on_disk_def)

lemma dom_table_of: "dom (table_of E t c p ps) = get_tag_for_res E ` set ps"
  by (auto simp: table_of_def dom_def)

lemma ensure_dir_ok:
  assumes "\<not> isfile s p"
  shows "\<exists>s3. ensure_dir p s = (Inr (), s3)
     \<and> fs s3 = (if isdir s p then fs s else (fs s)(p \<mapsto> Dir)) \<and> logged s3 = logged s"
  using assms
  by (cases "fs s p") (auto simp: ensure_dir_def isdir_def isfile_def makedirs_def split: node.splits)

lemma fname_dict_eq:
  "fname_dict E (Some t) (Some c) (Some p) x r s =
     and_then (ensure_dir (outdir_of E t))
       (\<lambda>u. fname_table E t c p (indir_of E t) (outdir_of E t) r)
       (logger DEBUG (''outdir: '' @ outdir_of E t) (logger DEBUG (''indir: '' @ indir_of E t) s))"
  by (simp add: fname_dict_def Let_def indir_of_def outdir_of_def)

lemma fname_table_some:
  assumes res: "get_res_for_config E c = Some rl"
  shows "\<exists>s'. fname_table E t c p (indir_of E t) (outdir_of E t) r s =
           (Inr (Table ((table_of E t c p (present E s t c p rl))
                  (''res_lowresmask'' \<mapsto> Str (lowres_choice E r (present E s t c p rl))))), s')
         \<and> fs s' = fs s
         \<and> logged s' = logged s
              @ map (missing_warning E t c p) (filter (\<lambda>r. \<not> on_disk E s t c p r) rl)"
proof -
  obtain a s' where sc: "fold (fname_step E t c p (indir_of E t) (outdir_of E t)) rl (scan0, s) = (a, s')"
     "fs s' = fs s"
     "logged s' = logged s @ map (missing_warning E t c p) (filter (\<lambda>r. \<not> on_disk E s t c p r) rl)"
     "lowest_res_tag a = coarsest_tag E (present E s t c p rl)"
     "tbl a = table_of E t c p (present E s t c p rl)"
    using fname_scan [of E t c p rl s] by blast
  have "fname_table E t c p (indir_of E t) (outdir_of E t) r s =
           (Inr (Table ((table_of E t c p (present E s t c p rl))
                  (''res_lowresmask'' \<mapsto> Str (lowres_choice E r (present E s t c p rl))))), s')"
    using res sc(1,4,5)
    by (simp add: fname_table_def Let_def dom_table_of lowres_choice_def scan0_def [symmetric])
  then show ?thesis
    using sc(2,3) by auto
qed

lemma fname_dict_some:
  assumes res: "get_res_for_config E c = Some rl" and out: "\<not> isfile s (outdir_of E t)"
  shows "\<exists>s'. fname_dict E (Some t) (Some c) (Some p) x r s =
           (Inr (Table ((table_of E t c p (present E s t c p rl))
                  (''res_lowresmask'' \<mapsto> Str (lowres_choice E r (present E s t c p rl))))), s')
         \<and> fs s' = with_outdir E t s
         \<and> logged s' = logged s @ prelude_log E t
              @ map (missing_warning E t c p) (filter (\<lambda>r. \<not> on_disk E s t c p r) rl)"
proof -
  define s2 where "s2 = logger DEBUG (''outdir: '' @ outdir_of E t) (logger DEBUG (''indir: '' @ indir_of E t) s)"
  have s2: "fs s2 = fs s" "logged s2 = logged s @ prelude_log E t"
    by (simp_all add: s2_def logger_def prelude_log_def)
  have "\<not> isfile s2 (outdir_of E t)" using out s2(1) by (simp add: isfile_def)
  from ensure_dir_ok [OF this]
  obtain s3 where s3': "ensure_dir (outdir_of E t) s2 = (Inr (), s3)"
     "fs s3 = (if isdir s2 (outdir_of E t) then fs s2 else (fs s2)(outdir_of E t \<mapsto> Dir))"
     "logged s3 = logged s2"
    by blast
  have "fs s3 = with_outdir E t s"
    using s3'(2) s2(1) by (simp add: with_outdir_def isdir_def)
  note s3 = s3'(1) this s3'(3)
  have od: "on_disk E s3 t c p = on_disk E s t c p"
    by (rule on_disk_cong) (rule isfile_with_outdir [OF out s3(2)])
  have pr: "present E s3 t c p rl = present E s t c p rl"
    by (simp add: present_def od)
  obtain s' where tb: "fname_table E t c p (indir_of E t) (outdir_of E t) r s3 =
           (Inr (Table ((table_of E t c p (present E s t c p rl))
                  (''res_lowresmask'' \<mapsto> Str (lowres_choice E r (present E s t c p rl))))), s')"
      "fs s' = fs s3"
      "logged s' = logged s3 @ map (missing_warning E t c p) (filter (\<lambda>r. \<not> on_disk E s t c p r) rl)"
    using fname_table_some [OF res, of t p r s3] unfolding pr od by blast
  have "fname_dict E (Some t) (Some c) (Some p) x r s =
           (Inr (Table ((table_of E t c p (present E s t c p rl))
                  (''res_lowresmask'' \<mapsto> Str (lowres_choice E r (present E s t c p rl))))), s')"
    unfolding fname_dict_eq s2_def [symmetric] by (simp add: and_then_def s3(1) tb(1))
  then show ?thesis
    using tb(2,3) s3(2,3) s2(2) by auto
qed

lemma fname_dict_none:
  assumes res: "get_res_for_config E c = None" and out: "\<not> isfile s (outdir_of E t)"
  shows "\<exists>s'. fname_dict E (Some t) (Some c) (Some p) x r s =
           (Inl (Exception (''No target resolutions found for target '' @ t @ '' and config'' @ c)), s')
         \<and> fs s' = with_outdir E t s
         \<and> logged s' = logged s @ prelude_log E t
              @ [(ERROR, ''No target resolutions found for target '' @ t @ '' and config'' @ c)]"
proof -
  define s2 where "s2 = logger DEBUG (''outdir: '' @ outdir_of E t) (logger DEBUG (''indir: '' @ indir_of E t) s)"
  have s2: "fs s2 = fs s" "logged s2 = logged s @ prelude_log E t"
    by (simp_all add: s2_def logger_def prelude_log_def)
  have "\<not> isfile s2 (outdir_of E t)" using out s2(1) by (simp add: isfile_def)
  from ensure_dir_ok [OF this]
  obtain s3 where s3': "ensure_dir (outdir_of E t) s2 = (Inr (), s3)"
     "fs s3 = (if isdir s2 (outdir_of E t) then fs s2 else (fs s2)(outdir_of E t \<mapsto> Dir))"
     "logged s3 = logged s2"
    by blast
  have "fs s3 = with_outdir E t s"
    using s3'(2) s2(1) by (simp add: with_outdir_def isdir_def)
  note s3 = s3'(1) this s3'(3)
  have "fname_dict E (Some t) (Some c) (Some p) x r s =
           (Inl (Exception (''No target resolutions found for target '' @ t @ '' and config'' @ c)),
            logger ERROR (''No target resolutions found for target '' @ t @ '' and config'' @ c) s3)"
    unfolding fname_dict_eq s2_def [symmetric] by (simp add: and_then_def s3(1) fname_table_def res)
  then show ?thesis
    using s3(2,3) s2(2) by (simp add: logger_def)
qed

lemma recipe_low_eq:
  "recipe_building_low_resolution_mask E (Some t) (Some p) (Some c) r =
     and_then (fname_dict E (Some t) (Some c) (Some p) '''' r) (\<lambda>fd.
     and_then (pure (subscript_lowres fd)) (\<lambda>lowres_cube_tag.
     and_then (pure (subscript2 fd lowres_cube_tag ''pbcorr_trimmed_k'')) (\<lambda>path.
     and_then (fits_open path) (\<lambda>f.
        pure (Inr (simple_mask E (dat f) (noise_cube E (dat f)), lowres_cube_tag))))))"
  by (rule ext) (simp add: recipe_building_low_resolution_mask_def and_then_def check_input_def Let_def)

lemma cube_entry_cube [simp]:
  "cube_entry i d n tag ''pbcorr_trimmed_k'' = Some (os_path_join i n)"
  by (simp add: cube_entry_def Let_def)

lemma fname_dict_blocked:
  assumes "isfile s (outdir_of E t)"
  shows "fname_dict E (Some t) (Some c) (Some p) x r s =
     (Inl (FileExistsError (outdir_of E t)),
      s\<lparr>logged := logged s @ prelude_log E t\<rparr>)"
proof -
  define s2 where "s2 = logger DEBUG (''outdir: '' @ outdir_of E t) (logger DEBUG (''indir: '' @ indir_of E t) s)"
  have s2: "s2 = s\<lparr>logged := logged s @ prelude_log E t\<rparr>"
    by (simp add: s2_def logger_def prelude_log_def)
  have "ensure_dir (outdir_of E t) s2 = (Inl (FileExistsError (outdir_of E t)), s2)"
    using assms unfolding s2
    by (auto simp: ensure_dir_def isdir_def isfile_def makedirs_def split: option.splits node.splits)
  then show ?thesis
    unfolding fname_dict_eq s2_def [symmetric] by (simp add: and_then_def s2 [symmetric])
qed

lemma recipe_low_some:
  assumes res: "get_res_for_config E c = Some rl" and out: "\<not> isfile s (outdir_of E t)"
  shows "\<exists>s'. recipe_building_low_resolution_mask E (Some t) (Some p) (Some c) r s =
            read_lowres E t c p (lowres_choice E r (present E s t c p rl)) (present E s t c p rl) s'
         \<and> fs s' = with_outdir E t s
         \<and> logged s' = logged s @ prelude_log E t
              @ map (missing_warning E t c p) (filter (\<lambda>r. \<not> on_disk E s t c p r) rl)"
proof -
  define ps where "ps = present E s t c p rl"
  define ch where "ch = lowres_choice E r ps"
  obtain s' where fd: "fname_dict E (Some t) (Some c) (Some p) '''' r s =
           (Inr (Table ((table_of E t c p ps)(''res_lowresmask'' \<mapsto> Str ch))), s')"
      "fs s' = with_outdir E t s"
      "logged s' = logged s @ prelude_log E t
              @ map (missing_warning E t c p) (filter (\<lambda>r. \<not> on_disk E s t c p r) rl)"
    using fname_dict_some [OF res out, of p "''''" r] unfolding ps_def ch_def by blast
  have "recipe_building_low_resolution_mask E (Some t) (Some p) (Some c) r s = read_lowres E t c p ch ps s'"
    unfolding recipe_low_eq
    by (simp add: and_then_def fd(1) pure_def subscript_lowres_def subscript2_def read_lowres_def
          table_of_def lookup_def cube_path_def split: prod.splits sum.splits)
  then show ?thesis using fd(2,3) unfolding ps_def ch_def by blast
qed

lemma coarsest_tag_in:
  assumes "ps \<noteq> []"
  shows "coarsest_tag E ps \<in> get_tag_for_res E ` set ps"
proof -
  have "Max (set ps) \<in> set ps" using assms by (intro Max_in) auto
  then have ne: "filter (\<lambda>r. r = Max (set ps)) ps \<noteq> []" by (simp add: filter_empty_conv)
  have "hd (filter (\<lambda>r. r = Max (set ps)) ps) \<in> set (filter (\<lambda>r. r = Max (set ps)) ps)"
    using ne by (rule hd_in_set)
  moreover have "set (filter (\<lambda>r. r = Max (set ps)) ps) \<subseteq> set ps" by (rule filter_is_subset)
  ultimately have "hd (filter (\<lambda>r. r = Max (set ps)) ps) \<in> set ps" by (rule subsetD [rotated])
  then show ?thesis using assms by (simp add: coarsest_tag_def)
qed

lemma lowres_choice_in:
  "ps \<noteq> [] \<Longrightarrow> lowres_choice E r ps \<in> get_tag_for_res E ` set ps"
  by (simp add: lowres_choice_def coarsest_tag_in)

lemma with_outdir_file:
  "\<not> isfile s (outdir_of E t) \<Longrightarrow> (with_outdir E t s q = Some (File x)) = (fs s q = Some (File x))"
  by (auto simp: with_outdir_def isfile_def isdir_def split: option.splits node.splits)

lemma read_lowres_snd: "snd (read_lowres E t c p ch ps a) = a"
  by (auto simp: read_lowres_def fits_open_def split: option.splits node.splits content.splits)

lemma read_lowres_fst:
  "fs a = fs b \<Longrightarrow> fst (read_lowres E t c p ch ps a) = fst (read_lowres E t c p ch ps b)"
  by (auto simp: read_lowres_def fits_open_def split: option.splits node.splits content.splits)

lemma with_outdir_idem:
  assumes "fs s1 = with_outdir E t s"
  shows "with_outdir E t s1 = fs s1"
  using assms by (auto simp: with_outdir_def isdir_def split: option.splits node.splits if_splits)

lemma present_cong:
  "(\<And>q. isfile s1 q = isfile s q) \<Longrightarrow> present E s1 t c p rl = present E s t c p rl"
  unfolding present_def by (subst on_disk_cong [of s1 s]) simp_all

lemma recipe_low_unset:
  assumes "target = None \<or> product = None \<or> config = None"
  shows "fst (recipe_building_low_resolution_mask E target product config r a)
           = fst (recipe_building_low_resolution_mask E target product config r b)"
    and "fs (snd (recipe_building_low_resolution_mask E target product config r a)) = fs a"
  using assms
  by (auto simp: recipe_building_low_resolution_mask_def and_then_def check_input_def logger_def)

lemma recipe_low_blocked:
  assumes "isfile s (outdir_of E t)"
  shows "recipe_building_low_resolution_mask E (Some t) (Some p) (Some c) r s =
     (Inl (FileExistsError (outdir_of E t)), s\<lparr>logged := logged s @ prelude_log E t\<rparr>)"
  unfolding recipe_low_eq by (simp add: and_then_def fname_dict_blocked [OF assms])

lemma recipe_low_none:
  assumes res: "get_res_for_config E c = None" and out: "\<not> isfile s (outdir_of E t)"
  shows "\<exists>s'. recipe_building_low_resolution_mask E (Some t) (Some p) (Some c) r s =
           (Inl (Exception (''No target resolutions found for target '' @ t @ '' and config'' @ c)), s')
         \<and> fs s' = with_outdir E t s"
  using fname_dict_none [OF res out, of p "''''" r] unfolding recipe_low_eq
  by (auto simp: and_then_def)

lemma task_writing_mask_set:
  "task_writing_mask E (Some m) (Some w) header cs (Some out) s =
     cube_write out (mask_file E m w header cs) (if isfile s out then remove out s else s)"
  by (simp add: task_writing_mask_def mask_file_def mask_header_def Let_def)

lemma task_writing_mask_ok:
  assumes "fs s out \<noteq> Some Dir"
  shows "task_writing_mask E (Some m) (Some w) header cs (Some out) s =
     (Inr (), s\<lparr>fs := (fs s)(out \<mapsto> File (Fits (mask_file E m w header cs)))\<rparr>)"
  using assms unfolding task_writing_mask_set
  by (auto simp: cube_write_def isfile_def remove_def split: option.splits node.splits)

lemma delete_step:
  "\<exists>s'. delete_old_files True pd s = (Inr (), s')
     \<and> (\<forall>q. q \<noteq> pd_outfile pd \<and> q \<noteq> pd_errorfile pd \<longrightarrow> fs s' q = fs s q)"
  by (simp add: delete_old_files_def Let_def isfile_arg_def logger_def remove_def)

lemma delete_loop:
  "\<exists>s'. for_each (delete_old_files True) pl s = (Inr (), s')
     \<and> (\<forall>q. q \<notin> set (touched pl) \<longrightarrow> fs s' q = fs s q)"
proof (induction pl arbitrary: s)
  case Nil
  then show ?case by simp
next
  case (Cons pd pl)
  obtain s1 where s1: "delete_old_files True pd s = (Inr (), s1)"
     "\<forall>q. q \<noteq> pd_outfile pd \<and> q \<noteq> pd_errorfile pd \<longrightarrow> fs s1 q = fs s q"
    using delete_step [of pd s] by blast
  obtain s' where s': "for_each (delete_old_files True) pl s1 = (Inr (), s')"
     "\<forall>q. q \<notin> set (touched pl) \<longrightarrow> fs s' q = fs s1 q"
    using Cons.IH [of s1] by blast
  show ?case using s1 s' by (auto simp: touched_def)
qed

lemma write_step:
  "\<exists>s'. make_product E cube rms True pd s = (Inr (), s')
     \<and> (\<forall>q. q \<noteq> pd_outfile pd \<and> q \<noteq> pd_errorfile pd \<longrightarrow> fs s' q = fs s q)
     \<and> is_fits s' (pd_outfile pd) \<and> is_fits s' (pd_errorfile pd)"
  by (simp add: make_product_def processfunction_def Let_def logger_def is_fits_def)

lemma write_loop:
  "\<exists>s'. for_each (make_product E cube rms True) pl s = (Inr (), s')
     \<and> (\<forall>q. q \<notin> set (touched pl) \<longrightarrow> fs s' q = fs s q)
     \<and> (\<forall>q. q \<in> set (touched pl) \<longrightarrow> is_fits s' q)"
proof (induction pl arbitrary: s)
  case Nil
  then show ?case by (simp add: touched_def)
next
  case (Cons pd pl)
  obtain s1 where s1: "make_product E cube rms True pd s = (Inr (), s1)"
     "\<forall>q. q \<noteq> pd_outfile pd \<and> q \<noteq> pd_errorfile pd \<longrightarrow> fs s1 q = fs s q"
     "is_fits s1 (pd_outfile pd)" "is_fits s1 (pd_errorfile pd)"
    using write_step [of E cube rms pd s] by blast
  obtain s' where s': "for_each (make_product E cube rms True) pl s1 = (Inr (), s')"
     "\<forall>q. q \<notin> set (touched pl) \<longrightarrow> fs s' q = fs s1 q"
     "\<forall>q. q \<in> set (touched pl) \<longrightarrow> is_fits s' q"
    using Cons.IH [of s1] by blast
  have "is_fits s' q" if "q \<in> set (touched (pd # pl))" for q
  proof (cases "q \<in> set (touched pl)")
    case True
    then show ?thesis using s'(3) by blast
  next
    case False
    then have "fs s' q = fs s1 q" using s'(2) by blast
    moreover have "q = pd_outfile pd \<or> q = pd_errorfile pd" using that False by (auto simp: touched_def)
    ultimately show ?thesis using s1(3,4) by (auto simp: is_fits_def)
  qed
  moreover have "fs s' q = fs s q" if "q \<notin> set (touched (pd # pl))" for q
    using that s1(2) s'(2) by (auto simp: touched_def)
  ultimately show ?case using s1(1) s'(1) by auto
qed

lemma task_writting_products_ok:
  assumes "do_errormaps fl"
  shows "\<exists>s'. task_writting_products E cube rms f fl s = (Inr (), s')
     \<and> (\<forall>q. q \<notin> set (product_files fl f) \<longrightarrow> fs s' q = fs s q)
     \<and> (\<forall>q. q \<in> set (product_files fl f) \<longrightarrow> is_fits s' q)"
proof -
  define pl where "pl = process_list fl (re_sub_suffix ''.fits'' f)"
  obtain s1 where s1: "for_each (delete_old_files True) pl s = (Inr (), s1)"
     "\<forall>q. q \<notin> set (touched pl) \<longrightarrow> fs s1 q = fs s q"
    using delete_loop [of pl s] by blast
  obtain s' where s': "for_each (make_product E cube rms True) pl s1 = (Inr (), s')"
     "\<forall>q. q \<notin> set (touched pl) \<longrightarrow> fs s' q = fs s1 q"
     "\<forall>q. q \<in> set (touched pl) \<longrightarrow> is_fits s' q"
    using write_loop [of E cube rms pl s1] by blast
  have "task_writting_products E cube rms f fl s = (Inr (), s')"
    using assms s1(1) s'(1) by (simp add: task_writting_products_def Let_def and_then_def pl_def)
  then show ?thesis using s1(2) s'(2,3) by (auto simp: product_files_def pl_def)
qed

lemma entry_lookup:
  "cube_entry (indir_of E t) (outdir_of E t) (cube_name E t c p tag) tag ''pbcorr_trimmed_k'' = Some (cube_path E t c p tag)"
  "cube_entry (indir_of E t) (outdir_of E t) (cube_name E t c p tag) tag ''hybridmask'' = Some (out_path E t c p tag ''hybridmask'')"
  "cube_entry (indir_of E t) (outdir_of E t) (cube_name E t c p tag) tag ''signalmask'' = Some (out_path E t c p tag ''signalmask'')"
  "cube_entry (indir_of E t) (outdir_of E t) (cube_name E t c p tag) tag ''broad'' = Some (out_path E t c p tag ''broad'')"
  "cube_entry (indir_of E t) (outdir_of E t) (cube_name E t c p tag) tag ''strict'' = Some (out_path E t c p tag ''strict'')"
  by (simp_all add: cube_entry_def Let_def out_path_def image_base_def cube_path_def)

lemma basename_no_slash: "CHR ''/'' \<notin> set (basename p)"
proof -
  have "\<forall>x\<in>set (takeWhile (\<lambda>c. c \<noteq> CHR ''/'') (rev p)). x \<noteq> CHR ''/''"
    by (auto dest: set_takeWhileD)
  then show ?thesis by (auto simp: basename_def)
qed

lemma re_sub_suffix_subset: "set (re_sub_suffix suf x) \<subseteq> set x"
  by (auto simp: re_sub_suffix_def dest: in_set_takeD)

lemma re_sub_suffix_append [simp]: "re_sub_suffix suf (x @ suf) = x"
  by (simp add: re_sub_suffix_def)

lemma image_base_no_slash: "CHR ''/'' \<notin> set (image_base E t c p tag)"
  using re_sub_suffix_subset basename_no_slash unfolding image_base_def by fastforce

lemma os_path_join_rel:
  assumes "CHR ''/'' \<notin> set b"
  shows "os_path_join d (b @ CHR ''_'' # x) = dir_prefix d @ b @ CHR ''_'' # x"
proof -
  have "hd (b @ CHR ''_'' # x) \<noteq> CHR ''/''"
    using assms by (cases b) auto
  then show ?thesis by (simp add: os_path_join_def dir_prefix_def)
qed

lemma out_path_eq:
  "out_path E t c p tag k =
     dir_prefix (outdir_of E t) @ image_base E t c p tag @ ''_'' @ k @ ''_res'' @ tag @ ''.fits''"
  unfolding out_path_def using os_path_join_rel [OF image_base_no_slash] by simp

lemma product_files_default:
  "product_files default_flags (x @ ''.fits'') =
     [x @ ''_mom0.fits'', x @ ''_emom0.fits'', x @ ''_mom1.fits'', x @ ''_emom1.fits'',
      x @ ''_mom2.fits'', x @ ''_emom2.fits'', x @ ''_ew.fits'', x @ ''_eew.fits'',
      x @ ''_tmax.fits'', x @ ''_etmax.fits'', x @ ''_vmax.fits'', x @ ''_evmax.fits'',
      x @ ''_vquad.fits'', x @ ''_evquad.fits'']"
  by (simp add: product_files_def touched_def process_list_def process_entry_def default_flags_def)

lemma hybrid_path_apart:
  "out_path E t c p tag ''hybridmask'' \<notin> set (tl (outputs E t c p tag))"
proof -
  define pre where "pre = dir_prefix (outdir_of E t) @ image_base E t c p tag"
  have h: "out_path E t c p tag ''hybridmask'' = pre @ ''_hybridmask_res'' @ tag @ ''.fits''"
    and sg: "out_path E t c p tag ''signalmask'' = pre @ ''_signalmask_res'' @ tag @ ''.fits''"
    and b: "out_path E t c p tag ''broad'' = (pre @ ''_broad_res'' @ tag) @ ''.fits''"
    and st: "out_path E t c p tag ''strict'' = (pre @ ''_strict_res'' @ tag) @ ''.fits''"
    by (simp_all add: out_path_eq pre_def)
  show ?thesis
    unfolding outputs_def h sg b st product_files_default by simp
qed

lemma task_writting_products_run:
  assumes "do_errormaps fl" and "task_writting_products E cube rms f fl s = (r, s')"
  shows "r = Inr ()"
    and "\<forall>q. q \<notin> set (product_files fl f) \<longrightarrow> fs s' q = fs s q"
    and "\<forall>q. q \<in> set (product_files fl f) \<longrightarrow> is_fits s' q"
  using task_writting_products_ok [OF assms(1), of E cube rms f s] assms(2) by auto

lemma task_writing_mask_dir:
  assumes "task_writing_mask E (Some m) (Some w) header cs (Some out) s = (Inr u, s')"
  shows "fs s out \<noteq> Some Dir"
  using assms unfolding task_writing_mask_set
  by (auto simp: cube_write_def isfile_def)

lemma and_then_Inr:
  "and_then m f s = (Inr y, s') \<longleftrightarrow> (\<exists>x s1. m s = (Inr x, s1) \<and> f x s1 = (Inr y, s'))"
  by (auto simp: and_then_def split: prod.splits sum.splits)

lemma build_resolution_Inr:
  assumes T: "T tag = Some (Paths (cube_entry (indir_of E t) (outdir_of E t) (cube_name E t c p tag) tag))"
    and run: "build_resolution E (Table T) lm lt tag s = (Inr (), s')"
  shows "\<exists>f hyb. fs s (cube_path E t c p tag) = Some (File (Fits f))
      \<and> logical_or (signal_of E f) lm = Inr hyb
      \<and> fs s' (out_path E t c p tag ''hybridmask'')
          = Some (File (Fits (mask_file E hyb (WCS E (hdr f)) (Some (hdr f)) (Some (hybrid_comments tag lt)))))
      \<and> (\<forall>q. q \<notin> set (outputs E t c p tag) \<longrightarrow> fs s' q = fs s q)
      \<and> (\<forall>q. q \<in> set (outputs E t c p tag) \<longrightarrow> is_fits s' q)"
proof -
  let ?hp = "out_path E t c p tag ''hybridmask''"
  let ?sp = "out_path E t c p tag ''signalmask''"
  let ?bp = "out_path E t c p tag ''broad''"
  let ?tp = "out_path E t c p tag ''strict''"
  have sub: "subscript2 (Table T) tag ''pbcorr_trimmed_k'' = Inr (cube_path E t c p tag)"
    "subscript2 (Table T) tag ''hybridmask'' = Inr ?hp"
    "subscript2 (Table T) tag ''signalmask'' = Inr ?sp"
    "subscript2 (Table T) tag ''broad'' = Inr ?bp"
    "subscript2 (Table T) tag ''strict'' = Inr ?tp"
    by (simp_all add: subscript2_def T lookup_def entry_lookup cube_path_def)
  from run obtain f s0 where op: "fits_open (cube_path E t c p tag) s = (Inr f, s0)"
    and rest0: "\<exists>hyb s1 s2 s3. logical_or (signal_of E f) lm = Inr hyb
       \<and> task_writing_mask E (Some hyb) (Some (WCS E (hdr f))) (Some (hdr f))
            (Some (hybrid_comments tag lt)) (Some ?hp) s0 = (Inr (), s1)
       \<and> task_writing_mask E (Some (signal_of E f)) (Some (WCS E (hdr f))) (Some (hdr f))
            (Some (Lines [''This signalmask is made with the '' @ tag @ ''arcsec resolution cube.''])) (Some ?sp) s1 = (Inr (), s2)
       \<and> task_writting_products E (SpectralCube (dat f) (WCS E (hdr f)) hyb)
            (SpectralCube (noise_cube E (dat f)) (WCS E (hdr f)) hyb) ?bp default_flags s2 = (Inr (), s3)
       \<and> task_writting_products E (SpectralCube (dat f) (WCS E (hdr f)) (signal_of E f))
            (SpectralCube (noise_cube E (dat f)) (WCS E (hdr f)) (signal_of E f)) ?tp default_flags s3 = (Inr (), s')"
    unfolding build_resolution_def sub
    by (auto simp: and_then_Inr pure_def Let_def signal_of_def hybrid_comments_def)
  from rest0 obtain hyb s1 s2 s3 where lo: "logical_or (signal_of E f) lm = Inr hyb"
    and w1: "task_writing_mask E (Some hyb) (Some (WCS E (hdr f))) (Some (hdr f))
            (Some (hybrid_comments tag lt)) (Some ?hp) s0 = (Inr (), s1)"
    and w2: "task_writing_mask E (Some (signal_of E f)) (Some (WCS E (hdr f))) (Some (hdr f))
            (Some (Lines [''This signalmask is made with the '' @ tag @ ''arcsec resolution cube.''])) (Some ?sp) s1 = (Inr (), s2)"
    and p1: "task_writting_products E (SpectralCube (dat f) (WCS E (hdr f)) hyb)
            (SpectralCube (noise_cube E (dat f)) (WCS E (hdr f)) hyb) ?bp default_flags s2 = (Inr (), s3)"
    and p2: "task_writting_products E (SpectralCube (dat f) (WCS E (hdr f)) (signal_of E f))
            (SpectralCube (noise_cube E (dat f)) (WCS E (hdr f)) (signal_of E f)) ?tp default_flags s3 = (Inr (), s')"
    by blast
  have cube: "fs s (cube_path E t c p tag) = Some (File (Fits f))" and s0: "s0 = s"
    using op by (auto simp: fits_open_def split: option.splits node.splits content.splits)
  have nd1: "fs s ?hp \<noteq> Some Dir"
    using task_writing_mask_dir [OF w1] unfolding s0 .
  have s1: "s1 = s\<lparr>fs := (fs s)(?hp \<mapsto> File (Fits (mask_file E hyb (WCS E (hdr f)) (Some (hdr f)) (Some (hybrid_comments tag lt)))))\<rparr>"
    using w1 unfolding s0 task_writing_mask_ok [OF nd1] by simp
  have nd2: "fs s1 ?sp \<noteq> Some Dir"
    by (rule task_writing_mask_dir [OF w2])
  have s2: "s2 = s1\<lparr>fs := (fs s1)(?sp \<mapsto> File (Fits (mask_file E (signal_of E f) (WCS E (hdr f)) (Some (hdr f))
      (Some (Lines [''This signalmask is made with the '' @ tag @ ''arcsec resolution cube.''])))))\<rparr>"
    using w2 unfolding task_writing_mask_ok [OF nd2] by simp
  have de: "do_errormaps default_flags" by (simp add: default_flags_def)
  note f3 = task_writting_products_run(2,3) [OF de p1]
  note f4 = task_writting_products_run(2,3) [OF de p2]
  have frame: "fs s' q = fs s q" if "q \<notin> set (outputs E t c p tag)" for q
    using that f3(1) f4(1) unfolding s2 s1 by (simp add: outputs_def)
  have hp: "fs s' ?hp = Some (File (Fits (mask_file E hyb (WCS E (hdr f)) (Some (hdr f)) (Some (hybrid_comments tag lt)))))"
  proof -
    have a: "?hp \<notin> set (tl (outputs E t c p tag))" by (rule hybrid_path_apart)
    then have "fs s' ?hp = fs s2 ?hp" using f3(1) f4(1) by (simp add: outputs_def)
    moreover have "?hp \<noteq> ?sp" using a by (simp add: outputs_def)
    ultimately show ?thesis unfolding s2 s1 by simp
  qed
  have fits: "is_fits s' q" if "q \<in> set (outputs E t c p tag)" for q
  proof (cases "q \<in> set (product_files default_flags ?tp)")
    case True
    then show ?thesis using f4(2) by blast
  next
    case n4: False
    then have e4: "fs s' q = fs s3 q" using f4(1) by blast
    show ?thesis
    proof (cases "q \<in> set (product_files default_flags ?bp)")
      case True
      then show ?thesis using f3(2) e4 by (auto simp: is_fits_def)
    next
      case False
      then have e3: "fs s3 q = fs s2 q" using f3(1) by blast
      have "q = ?hp \<or> q = ?sp" using that n4 False by (auto simp: outputs_def)
      then show ?thesis unfolding is_fits_def e4 e3 s2 s1 by auto
    qed
  qed
  from cube lo hp frame fits show ?thesis by blast
qed

lemma for_each_invariant:
  assumes "for_each f xs s = (Inr (), s')" and "I s"
    and "\<And>x a b. x \<in> set xs \<Longrightarrow> I a \<Longrightarrow> f x a = (Inr (), b) \<Longrightarrow> I b"
  shows "I s'"
  using assms
proof (induction xs arbitrary: s)
  case Nil
  then show ?case by simp
next
  case (Cons x xs)
  from Cons.prems(1) obtain s1 where s1: "f x s = (Inr (), s1)" "for_each f xs s1 = (Inr (), s')"
    by (auto split: prod.splits sum.splits)
  have "I s1" using Cons.prems(3) [of x s s1] Cons.prems(2) s1(1) by simp
  with s1(2) show ?case
  proof (rule Cons.IH)
    fix y a b assume "y \<in> set xs" "I a" "f y a = (Inr (), b)"
    then show "I b" using Cons.prems(3) [of y a b] by simp
  qed
qed

lemma for_each_establish:
  assumes "for_each f xs s = (Inr (), s')" and "x0 \<in> set xs" and "I s"
    and inv: "\<And>x a b. x \<in> set xs \<Longrightarrow> I a \<Longrightarrow> f x a = (Inr (), b) \<Longrightarrow> I b"
    and est: "\<And>a b. I a \<Longrightarrow> f x0 a = (Inr (), b) \<Longrightarrow> Q b"
    and keep: "\<And>x a b. x \<in> set xs \<Longrightarrow> I a \<Longrightarrow> Q a \<Longrightarrow> f x a = (Inr (), b) \<Longrightarrow> Q b"
  shows "Q s'"
  using assms(1-3) inv keep
proof (induction xs arbitrary: s)
  case Nil
  then show ?case by simp
next
  case (Cons x xs)
  from Cons.prems(1) obtain s1 where s1: "f x s = (Inr (), s1)" "for_each f xs s1 = (Inr (), s')"
    by (auto split: prod.splits sum.splits)
  have I1: "I s1" using Cons.prems(4) [of x s s1] Cons.prems(3) s1(1) by simp
  show ?case
  proof (cases "x = x0")
    case True
    have Q1: "Q s1" using est [OF Cons.prems(3)] s1(1) True by simp
    have "I s' \<and> Q s'"
    proof (rule for_each_invariant [OF s1(2), where I = "\<lambda>a. I a \<and> Q a"])
      show "I s1 \<and> Q s1" using I1 Q1 by simp
    next
      fix y a b assume "y \<in> set xs" "I a \<and> Q a" "f y a = (Inr (), b)"
      then show "I b \<and> Q b" using Cons.prems(4) [of y a b] Cons.prems(5) [of y a b] by simp
    qed
    then show ?thesis by simp
  next
    case False
    then have "x0 \<in> set xs" using Cons.prems(2) by simp
    with s1(2) show ?thesis
    proof (rule Cons.IH)
      show "I s1" by (rule I1)
    next
      fix y a b assume "y \<in> set xs" "I a" "f y a = (Inr (), b)"
      then show "I b" using Cons.prems(4) [of y a b] by simp
    next
      fix y a b assume "y \<in> set xs" "I a" "Q a" "f y a = (Inr (), b)"
      then show "Q b" using Cons.prems(5) [of y a b] by simp
    qed
  qed
qed

lemma recipe_all_eq:
  "recipe_building_all_resolution_masks E (Some t) (Some p) (Some c) (Some lm) (Some lt) =
     and_then (fname_dict E (Some t) (Some c) (Some p) '''' '''') (\<lambda>fd.
       (case get_res_for_config E c of
          None \<Rightarrow> pure (Inl (TypeError ''NoneType object is not iterable''))
        | Some res_list \<Rightarrow> for_each (resolution_step E fd lm lt) res_list))"
  by (rule ext)
     (auto simp: recipe_building_all_resolution_masks_def and_then_def check_input_def pure_def
        split: prod.splits sum.splits option.splits)

lemma recipe_all_run:
  assumes res: "get_res_for_config E c = Some rl"
    and run: "recipe_building_all_resolution_masks E (Some t) (Some p) (Some c) (Some lm) (Some lt) s = (Inr (), s')"
  shows "\<not> isfile s (outdir_of E t)"
    and "\<exists>s0. fs s0 = with_outdir E t s
           \<and> for_each (resolution_step E (Table (recipe_table E s t c p rl)) lm lt) rl s0 = (Inr (), s')"
proof -
  show out: "\<not> isfile s (outdir_of E t)"
  proof
    assume "isfile s (outdir_of E t)"
    from fname_dict_blocked [OF this] run show False
      unfolding recipe_all_eq by (simp add: and_then_def)
  qed
  from fname_dict_some [OF res out, of p "''''" "''''"] run
  show "\<exists>s0. fs s0 = with_outdir E t s
           \<and> for_each (resolution_step E (Table (recipe_table E s t c p rl)) lm lt) rl s0 = (Inr (), s')"
    unfolding recipe_all_eq recipe_table_def by (auto simp: and_then_def res)
qed

lemma resolution_step_Inr:
  assumes run: "resolution_step E (Table (recipe_table E s t c p rl)) lm lt x a = (Inr (), b)"
  shows "(get_tag_for_res E x \<notin> get_tag_for_res E ` set (present E s t c p rl) \<and> b = a)
       \<or> (get_tag_for_res E x \<in> get_tag_for_res E ` set (present E s t c p rl)
          \<and> (\<exists>f hyb. fs a (cube_path E t c p (get_tag_for_res E x)) = Some (File (Fits f))
      \<and> logical_or (signal_of E f) lm = Inr hyb
      \<and> fs b (out_path E t c p (get_tag_for_res E x) ''hybridmask'')
          = Some (File (Fits (mask_file E hyb (WCS E (hdr f)) (Some (hdr f)) (Some (hybrid_comments (get_tag_for_res E x) lt)))))
      \<and> (\<forall>q. q \<notin> set (outputs E t c p (get_tag_for_res E x)) \<longrightarrow> fs b q = fs a q)
      \<and> (\<forall>q. q \<in> set (outputs E t c p (get_tag_for_res E x)) \<longrightarrow> is_fits b q)))"
proof -
  define tag where "tag = get_tag_for_res E x"
  define T where "T = recipe_table E s t c p rl"
  show ?thesis
  proof (cases "tag = ''res_lowresmask''")
    case True
    then have "T tag = Some (Str (lowres_choice E '''' (present E s t c p rl)))"
      by (simp add: T_def recipe_table_def)
    then have "fst (resolution_step E (Table T) lm lt x a) \<noteq> Inr ()"
      by (simp add: resolution_step_def tag_def [symmetric] contains_def dom_def build_resolution_def
            and_then_def pure_def subscript2_def)
    then show ?thesis using run unfolding T_def by simp
  next
    case nr: False
    show ?thesis
    proof (cases "tag \<in> get_tag_for_res E ` set (present E s t c p rl)")
      case True
      then have Tt: "T tag = Some (Paths (cube_entry (indir_of E t) (outdir_of E t) (cube_name E t c p tag) tag))"
        using nr by (simp add: T_def recipe_table_def table_of_def)
      then have "build_resolution E (Table T) lm lt tag a = (Inr (), b)"
        using run unfolding T_def [symmetric]
        by (simp add: resolution_step_def tag_def [symmetric] contains_def dom_def)
      from build_resolution_Inr [OF Tt this] True show ?thesis
        unfolding tag_def by blast
    next
      case False
      then have "T tag = None" using nr by (simp add: T_def recipe_table_def table_of_def)
      then have "b = a"
        using run unfolding T_def [symmetric]
        by (simp add: resolution_step_def tag_def [symmetric] contains_def dom_def)
      then show ?thesis using False unfolding tag_def by simp
    qed
  qed
qed

lemma broadcast_shapes_same: "broadcast_shapes xs xs = Some xs"
  by (induction xs) auto

lemma indices_length: "ix \<in> set (indices sh) \<Longrightarrow> length ix = length sh"
  by (induction sh arbitrary: ix) auto

lemma upt_block: "[n * P..<n * P + P] = map (\<lambda>j. n * P + j) [0..<P]"
proof -
  have "map (\<lambda>j. j + n * P) [0..<P] = [n * P..<P + n * P]" by (rule map_add_upt)
  then show ?thesis by (simp add: add.commute)
qed

lemma concat_blocks:
  "concat (map (\<lambda>k. map (\<lambda>j. (c + k) * P + j) [0..<P]) [0..<n]) = map (\<lambda>i. c * P + i) [0..<n * P]"
proof (induction n)
  case 0
  then show ?case by simp
next
  case (Suc n)
  have "[0..<Suc n * P] = [0..<n * P] @ [n * P..<n * P + P]"
    using upt_add_eq_append [of 0 "n * P" P] by (simp add: add.commute)
  then have "map (\<lambda>i. c * P + i) [0..<Suc n * P]
      = map (\<lambda>i. c * P + i) [0..<n * P] @ map (\<lambda>j. c * P + (n * P + j)) [0..<P]"
    by (simp only: map_append upt_block map_map comp_def)
  moreover have "(\<lambda>j. c * P + (n * P + j)) = (\<lambda>j. (c + n) * P + j)"
    by (rule ext) (simp add: add_mult_distrib)
  moreover have "concat (map (\<lambda>k. map (\<lambda>j. (c + k) * P + j) [0..<P]) [0..<Suc n])
      = concat (map (\<lambda>k. map (\<lambda>j. (c + k) * P + j) [0..<P]) [0..<n]) @ map (\<lambda>j. (c + n) * P + j) [0..<P]"
    by simp
  ultimately show ?case using Suc.IH by (simp only:)
qed

lemma offsets_row_major:
  "map (\<lambda>ix. foldl offset_step acc (zip sh ix)) (indices sh)
     = map (\<lambda>i. acc * prod_list sh + i) [0..<prod_list sh]"
proof (induction sh arbitrary: acc)
  case Nil
  then show ?case by simp
next
  case (Cons n ns)
  have step: "map (\<lambda>ix. foldl offset_step acc (zip (n # ns) ix)) (map ((#) k) (indices ns))
                = map (\<lambda>j. (acc * n + k) * prod_list ns + j) [0..<prod_list ns]"
    if "k \<in> set [0..<n]" for k
  proof -
    have "offset_step acc (n, k) = acc * n + k"
      using that by (auto simp: offset_step_def)
    then show ?thesis using Cons.IH [of "acc * n + k"] by (simp add: comp_def)
  qed
  have "map (\<lambda>ix. foldl offset_step acc (zip (n # ns) ix)) (indices (n # ns))
          = concat (map (\<lambda>k. map (\<lambda>ix. foldl offset_step acc (zip (n # ns) ix)) (map ((#) k) (indices ns))) [0..<n])"
    by (simp only: indices.simps map_concat map_map comp_def)
  also have "\<dots> = concat (map (\<lambda>k. map (\<lambda>j. (acc * n + k) * prod_list ns + j) [0..<prod_list ns]) [0..<n])"
    by (rule arg_cong [where f = concat], rule map_cong [OF refl]) (rule step)
  also have "\<dots> = map (\<lambda>i. acc * n * prod_list ns + i) [0..<n * prod_list ns]"
    by (rule concat_blocks)
  finally show ?case by (simp add: mult.assoc)
qed

lemma offsets_of_shape: "map (offset sh) (indices sh) = [0..<prod_list sh]"
proof -
  have "map (offset sh) (indices sh) = map (\<lambda>ix. foldl offset_step 0 (zip sh ix)) (indices sh)"
    by (rule map_cong [OF refl]) (simp add: offset_def indices_length)
  also have "\<dots> = map (\<lambda>i. 0 * prod_list sh + i) [0..<prod_list sh]"
    by (rule offsets_row_major)
  finally show ?thesis by simp
qed

lemma broadcast_to_same:
  assumes "length (elems a) = prod_list (shape a)"
  shows "broadcast_to (shape a) a = elems a"
proof -
  have "broadcast_to (shape a) a = map ((!) (elems a)) (map (offset (shape a)) (indices (shape a)))"
    by (simp add: broadcast_to_def comp_def)
  also have "\<dots> = map ((!) (elems a)) [0..<length (elems a)]"
    unfolding offsets_of_shape assms ..
  finally show ?thesis by (simp only: map_nth)
qed

lemma logical_or_same_shape:
  assumes "shape a = shape b"
    and "length (elems a) = prod_list (shape a)" and "length (elems b) = prod_list (shape b)"
  shows "logical_or a b = Inr \<lparr>shape = shape a, elems = map2 (\<or>) (elems a) (elems b)\<rparr>"
proof -
  have "broadcast_to (shape a) a = elems a" using assms(2) by (rule broadcast_to_same)
  moreover have "broadcast_to (shape a) b = elems b"
    using broadcast_to_same [OF assms(3)] assms(1) by simp
  ultimately show ?thesis
    using assms(1) by (simp add: logical_or_def broadcast_shapes_same)
qed

lemma tag_present:
  "tag \<in> get_tag_for_res E ` set (present E s t c p rl)
     \<longleftrightarrow> (\<exists>r\<in>set rl. get_tag_for_res E r = tag \<and> on_disk E s t c p r)"
  by (auto simp: present_def)

lemma is_fits_cong: "fs b q = fs a q \<Longrightarrow> is_fits b q = is_fits a q"
  by (simp add: is_fits_def)

lemma astype_int_or:
  "map (\<lambda>b. if b then 1 else 0) (map2 (\<or>) xs ys) = map2 (\<lambda>a b. if a \<or> b then (1::rat) else 0) xs ys"
  by (induction xs arbitrary: ys) (auto split: list.splits simp: zip_Cons1)

lemma resolution_step_cases:
  assumes "resolution_step E (Table (recipe_table E s t c p rl)) lm lt x a = (Inr (), b)"
  obtains (skip) "\<not> (\<exists>r\<in>set rl. get_tag_for_res E r = get_tag_for_res E x \<and> on_disk E s t c p r)" "b = a"
    | (build) f hyb where "\<exists>r\<in>set rl. get_tag_for_res E r = get_tag_for_res E x \<and> on_disk E s t c p r"
        "fs a (cube_path E t c p (get_tag_for_res E x)) = Some (File (Fits f))"
        "logical_or (signal_of E f) lm = Inr hyb"
        "fs b (out_path E t c p (get_tag_for_res E x) ''hybridmask'')
          = Some (File (Fits (mask_file E hyb (WCS E (hdr f)) (Some (hdr f)) (Some (hybrid_comments (get_tag_for_res E x) lt)))))"
        "\<And>q. q \<notin> set (outputs E t c p (get_tag_for_res E x)) \<Longrightarrow> fs b q = fs a q"
        "\<And>q. q \<in> set (outputs E t c p (get_tag_for_res E x)) \<Longrightarrow> is_fits b q"
  using resolution_step_Inr [OF assms] unfolding tag_present by blast

lemma recipe_outputs:
  assumes res: "get_res_for_config E c = Some rl"
    and run: "recipe_building_all_resolution_masks E (Some t) (Some p) (Some c) (Some lm) (Some lt) s = (Inr (), s')"
  shows "\<forall>r\<in>set rl. on_disk E s t c p r \<longrightarrow> (\<forall>q\<in>set (outputs E t c p (get_tag_for_res E r)). is_fits s' q)"
    and "\<forall>q. (\<forall>r\<in>set rl. on_disk E s t c p r \<longrightarrow> q \<notin> set (outputs E t c p (get_tag_for_res E r)))
            \<longrightarrow> fs s' q = with_outdir E t s q"
proof -
  let ?step = "resolution_step E (Table (recipe_table E s t c p rl)) lm lt"
  obtain s0 where s0: "fs s0 = with_outdir E t s" and loop: "for_each ?step rl s0 = (Inr (), s')"
    using recipe_all_run(2) [OF res run] by blast
  show "\<forall>r\<in>set rl. on_disk E s t c p r \<longrightarrow> (\<forall>q\<in>set (outputs E t c p (get_tag_for_res E r)). is_fits s' q)"
  proof (intro ballI impI)
    fix r q assume r: "r \<in> set rl" "on_disk E s t c p r" and q: "q \<in> set (outputs E t c p (get_tag_for_res E r))"
    show "is_fits s' q"
    proof (rule for_each_establish [OF loop r(1), where I = "\<lambda>a. True" and Q = "\<lambda>a. is_fits a q"])
      fix a b assume st: "?step r a = (Inr (), b)"
      from st show "is_fits b q"
      proof (cases rule: resolution_step_cases)
        case skip
        then show ?thesis using r by blast
      next
        case (build f hyb)
        from build(6) [OF q] show ?thesis .
      qed
    next
      fix x a b assume Qa: "is_fits a q" and st: "?step x a = (Inr (), b)"
      from st show "is_fits b q"
      proof (cases rule: resolution_step_cases)
        case skip
        then show ?thesis using Qa by simp
      next
        case (build f hyb)
        show ?thesis
        proof (cases "q \<in> set (outputs E t c p (get_tag_for_res E x))")
          case True
          then show ?thesis by (rule build(6))
        next
          case False
          then have "fs b q = fs a q" by (rule build(5))
          from is_fits_cong [OF this] Qa show ?thesis by simp
        qed
      qed
    qed (rule TrueI)+
  qed
  show "\<forall>q. (\<forall>r\<in>set rl. on_disk E s t c p r \<longrightarrow> q \<notin> set (outputs E t c p (get_tag_for_res E r)))
            \<longrightarrow> fs s' q = with_outdir E t s q"
  proof (intro allI impI)
    fix q assume q: "\<forall>r\<in>set rl. on_disk E s t c p r \<longrightarrow> q \<notin> set (outputs E t c p (get_tag_for_res E r))"
    have "fs s' q = fs s0 q"
    proof (rule for_each_invariant [OF loop, where I = "\<lambda>a. fs a q = fs s0 q"])
      show "fs s0 q = fs s0 q" ..
    next
      fix x a b assume a: "fs a q = fs s0 q" and st: "?step x a = (Inr (), b)"
      from st show "fs b q = fs s0 q"
      proof (cases rule: resolution_step_cases)
        case skip
        then show ?thesis using a by simp
      next
        case (build f hyb)
        from build(1) q have "q \<notin> set (outputs E t c p (get_tag_for_res E x))" by metis
        then have "fs b q = fs a q" by (rule build(5))
        then show ?thesis using a by simp
      qed
    qed
    then show "fs s' q = with_outdir E t s q" using s0 by simp
  qed
qed

section \<open>The claims\<close>

text \<open>
  Claim C6. A call of the low-resolution mask recipe or of the recipe for all resolutions
  with \<^verbatim>\<open>target\<close>, \<^verbatim>\<open>product\<close> or \<^verbatim>\<open>config\<close> unset (None) does not go on: it logs an error
  record and raises an \<^verbatim>\<open>Exception\<close> with the same message, and the file system is as it
  was (only the log has grown).
\<close>

theorem recipes_raise_on_unset_argument:
  assumes "target = None \<or> product = None \<or> config = None"
  shows "\<exists>msg.
     recipe_building_low_resolution_mask E target product config res_lowresmask s
       = (Inl (Exception msg), logger ERROR msg s)
   \<and> recipe_building_all_resolution_masks E target product config lowres_cube_mask lowres_cube_tag s
       = (Inl (Exception msg), logger ERROR msg s)"
  using assms
  by (auto simp: recipe_building_low_resolution_mask_def recipe_building_all_resolution_masks_def
      and_then_def check_input_def)

theorem recipes_raise_on_unset_argument_witness:
  "\<exists>msg.
     recipe_building_low_resolution_mask demo_env (Some ''T'') None (Some ''X'') default_res_lowresmask demo_world
       = (Inl (Exception msg), logger ERROR msg demo_world)
   \<and> recipe_building_all_resolution_masks demo_env (Some ''T'') None (Some ''X'') None None demo_world
       = (Inl (Exception msg), logger ERROR msg demo_world)"
  using recipes_raise_on_unset_argument [of "Some ''T''" None "Some ''X''"] by simp

text \<open>
  Claim C3. The claim has the recipe for all resolutions get a missing low-resolution mask
  or tag from the low-resolution recipe, called with its own target, product and config,
  and go on. The code at line 269 passes \<^verbatim>\<open>this_target\<close>, \<^verbatim>\<open>this_product\<close> and
  \<^verbatim>\<open>this_config\<close>, names that are not bound in the method: with valid target, product and
  config and the mask or the tag unset, the call raises NameError and nothing is read or
  written.
\<close>

theorem all_resolutions_recipe_without_lowres_raises_NameError:
  "recipe_building_all_resolution_masks E (Some t) (Some p) (Some c) None lowres_cube_tag s
     = (Inl (NameError ''name this_target is not defined''), s)
   \<and> recipe_building_all_resolution_masks E (Some t) (Some p) (Some c) lowres_cube_mask None s
     = (Inl (NameError ''name this_target is not defined''), s)"
  by (simp add: recipe_building_all_resolution_masks_def and_then_def check_input_def pure_def)

text \<open>
  Claim C10. With target, config and product set (and no regular file in the way of the
  product directory): when the catalogue has no list of resolutions for the config, the
  resolver logs an error record and raises an \<^verbatim>\<open>Exception\<close> instead of returning a table;
  when it has a list, the resolver returns a table whatever cubes are missing, and what it
  logs after its two debug records is one warning for each resolution whose cube is not
  on disk.
\<close>

theorem resolver_without_resolution_list_raises:
  assumes out: "\<not> isfile s (outdir_of E t)"
  shows "(get_res_for_config E c = None \<longrightarrow>
           (\<exists>s'. fname_dict E (Some t) (Some c) (Some p) extra_ext res_lowresmask s =
                   (Inl (Exception (''No target resolutions found for target '' @ t @ '' and config'' @ c)), s')
                \<and> logged s' = logged s @ prelude_log E t
                     @ [(ERROR, ''No target resolutions found for target '' @ t @ '' and config'' @ c)]))
       \<and> (\<forall>rl. get_res_for_config E c = Some rl \<longrightarrow>
           (\<exists>fd s'. fname_dict E (Some t) (Some c) (Some p) extra_ext res_lowresmask s = (Inr (Table fd), s')
                \<and> logged s' = logged s @ prelude_log E t
                     @ map (missing_warning E t c p) (filter (\<lambda>r. \<not> on_disk E s t c p r) rl)))"
proof (intro conjI impI allI)
  assume "get_res_for_config E c = None"
  from fname_dict_none [OF this out]
  show "\<exists>s'. fname_dict E (Some t) (Some c) (Some p) extra_ext res_lowresmask s =
                   (Inl (Exception (''No target resolutions found for target '' @ t @ '' and config'' @ c)), s')
                \<and> logged s' = logged s @ prelude_log E t
                     @ [(ERROR, ''No target resolutions found for target '' @ t @ '' and config'' @ c)]"
    by blast
next
  fix rl assume "get_res_for_config E c = Some rl"
  from fname_dict_some [OF this out]
  show "\<exists>fd s'. fname_dict E (Some t) (Some c) (Some p) extra_ext res_lowresmask s = (Inr (Table fd), s')
                \<and> logged s' = logged s @ prelude_log E t
                     @ map (missing_warning E t c p) (filter (\<lambda>r. \<not> on_disk E s t c p r) rl)"
    by blast
qed

theorem resolver_without_resolution_list_raises_witness:
  "(\<exists>s'. fname_dict demo_env (Some ''T'') (Some ''Y'') (Some ''P'') '''' '''' demo_world =
            (Inl (Exception ''No target resolutions found for target T and configY''), s')
        \<and> logged s' = [(DEBUG, ''indir: /in''), (DEBUG, ''outdir: /out''),
                        (ERROR, ''No target resolutions found for target T and configY'')])
   \<and> (\<exists>fd s'. fname_dict demo_env (Some ''T'') (Some ''Z'') (Some ''P'') '''' '''' demo_world = (Inr (Table fd), s')
        \<and> logged s' = [(DEBUG, ''indir: /in''), (DEBUG, ''outdir: /out''),
             (WARNING, ''Cube with tag 5p00 at 5p00 arcsec resolution was not found: \"/in/T_pbcorr_trimmed_k_res5p00.fits\"'')])"
proof -
  have out: "\<not> isfile demo_world (outdir_of demo_env ''T'')"
    by (simp add: isfile_def outdir_of_def demo_defs)
  have n: "get_res_for_config demo_env ''Y'' = None" and z: "get_res_for_config demo_env ''Z'' = Some [5]"
    by (simp_all add: demo_defs)
  have nd: "\<not> on_disk demo_env demo_world ''T'' ''Z'' ''P'' 5"
    by (simp add: on_disk_def isfile_def cube_path_def cube_name_def indir_of_def os_path_join_def demo_defs)
  have w: "missing_warning demo_env ''T'' ''Z'' ''P'' 5 =
     (WARNING, ''Cube with tag 5p00 at 5p00 arcsec resolution was not found: \"/in/T_pbcorr_trimmed_k_res5p00.fits\"'')"
    by (simp add: missing_warning_def cube_path_def cube_name_def indir_of_def os_path_join_def demo_defs)
  have pl: "prelude_log demo_env ''T'' = [(DEBUG, ''indir: /in''), (DEBUG, ''outdir: /out'')]"
    by (simp add: prelude_log_def indir_of_def outdir_of_def demo_defs)
  have lg: "logged demo_world = []" by (simp add: demo_defs)
  from resolver_without_resolution_list_raises [OF out, of "''Y''" "''P''" "''''" "''''"] n
  have a: "\<exists>s'. fname_dict demo_env (Some ''T'') (Some ''Y'') (Some ''P'') '''' '''' demo_world =
            (Inl (Exception ''No target resolutions found for target T and configY''), s')
        \<and> logged s' = [(DEBUG, ''indir: /in''), (DEBUG, ''outdir: /out''),
                        (ERROR, ''No target resolutions found for target T and configY'')]"
    unfolding pl lg by simp
  from resolver_without_resolution_list_raises [OF out, of "''Z''" "''P''" "''''" "''''"] z
  have b: "\<exists>fd s'. fname_dict demo_env (Some ''T'') (Some ''Z'') (Some ''P'') '''' '''' demo_world = (Inr (Table fd), s')
        \<and> logged s' = [(DEBUG, ''indir: /in''), (DEBUG, ''outdir: /out''),
             (WARNING, ''Cube with tag 5p00 at 5p00 arcsec resolution was not found: \"/in/T_pbcorr_trimmed_k_res5p00.fits\"'')]"
    unfolding pl lg using nd w by simp
  from a b show ?thesis by blast
qed

theorem no_cubes_on_disk_is_fatal:
  assumes res: "get_res_for_config E c = Some rl"
    and out: "\<not> isfile s (outdir_of E t)"
    and none: "\<forall>r\<in>set rl. \<not> on_disk E s t c p r"
  shows "(\<exists>s'. fname_dict E (Some t) (Some c) (Some p) extra_ext res_lowresmask s =
               (Inr (Table [''res_lowresmask'' \<mapsto> Str '''']), s'))
       \<and> (\<exists>s'. recipe_building_low_resolution_mask E (Some t) (Some p) (Some c) res_lowresmask s =
               (Inl (KeyError ''''), s'))"
proof -
  have ps: "present E s t c p rl = []" using none by (simp add: present_def)
  have t0: "table_of E t c p [] = Map.empty" by (rule ext) (simp add: table_of_def)
  have ch: "lowres_choice E res_lowresmask [] = ''''" by (simp add: lowres_choice_def coarsest_tag_def)
  have a: "\<exists>s'. fname_dict E (Some t) (Some c) (Some p) extra_ext res_lowresmask s =
               (Inr (Table [''res_lowresmask'' \<mapsto> Str '''']), s')"
    using fname_dict_some [OF res out, of p extra_ext res_lowresmask] unfolding ps t0 ch by blast
  have b: "\<exists>s'. recipe_building_low_resolution_mask E (Some t) (Some p) (Some c) res_lowresmask s =
               (Inl (KeyError ''''), s')"
    using recipe_low_some [OF res out, of p res_lowresmask] unfolding ps ch
    by (auto simp: read_lowres_def)
  from a b show ?thesis by blast
qed

theorem no_cubes_on_disk_is_fatal_witness:
  "(\<exists>s'. fname_dict demo_env (Some ''T'') (Some ''Z'') (Some ''P'') '''' default_res_lowresmask demo_world =
               (Inr (Table [''res_lowresmask'' \<mapsto> Str '''']), s'))
       \<and> (\<exists>s'. recipe_building_low_resolution_mask demo_env (Some ''T'') (Some ''P'') (Some ''Z'') default_res_lowresmask demo_world =
               (Inl (KeyError ''''), s'))"
proof -
  have out: "\<not> isfile demo_world (outdir_of demo_env ''T'')"
    by (simp add: isfile_def outdir_of_def demo_defs)
  have z: "get_res_for_config demo_env ''Z'' = Some [5]"
    by (simp add: demo_defs)
  have nd: "\<forall>r\<in>set [5]. \<not> on_disk demo_env demo_world ''T'' ''Z'' ''P'' r"
    by (simp add: on_disk_def isfile_def cube_path_def cube_name_def indir_of_def os_path_join_def demo_defs)
  show ?thesis by (rule no_cubes_on_disk_is_fatal [OF z out nd])
qed

theorem lowres_tag_selection:
  assumes res: "get_res_for_config E c = Some rl"
    and out: "\<not> isfile s (outdir_of E t)"
  shows "(\<exists>fd s'. fname_dict E (Some t) (Some c) (Some p) extra_ext res_lowresmask s = (Inr (Table fd), s')
            \<and> fd ''res_lowresmask'' = Some (Str (lowres_choice E res_lowresmask (present E s t c p rl))))
       \<and> (\<forall>m tag s'. recipe_building_low_resolution_mask E (Some t) (Some p) (Some c) res_lowresmask s
                         = (Inr (m, tag), s')
            \<longrightarrow> tag = lowres_choice E res_lowresmask (present E s t c p rl))
       \<and> (\<forall>f. present E s t c p rl \<noteq> []
              \<and> lowres_choice E res_lowresmask (present E s t c p rl) \<noteq> ''res_lowresmask''
              \<and> fs s (cube_path E t c p (lowres_choice E res_lowresmask (present E s t c p rl)))
                   = Some (File (Fits f))
            \<longrightarrow> (\<exists>s'. recipe_building_low_resolution_mask E (Some t) (Some p) (Some c) res_lowresmask s
                    = (Inr (simple_mask E (dat f) (noise_cube E (dat f)),
                            lowres_choice E res_lowresmask (present E s t c p rl)), s')))"
proof -
  define ps where "ps = present E s t c p rl"
  define ch where "ch = lowres_choice E res_lowresmask ps"
  obtain s1 where s1: "recipe_building_low_resolution_mask E (Some t) (Some p) (Some c) res_lowresmask s =
            read_lowres E t c p ch ps s1" "fs s1 = with_outdir E t s"
    using recipe_low_some [OF res out, of p res_lowresmask] unfolding ps_def ch_def by blast
  have a: "\<exists>fd s'. fname_dict E (Some t) (Some c) (Some p) extra_ext res_lowresmask s = (Inr (Table fd), s')
            \<and> fd ''res_lowresmask'' = Some (Str ch)"
    using fname_dict_some [OF res out, of p extra_ext res_lowresmask] unfolding ps_def ch_def by auto
  have b: "tag = ch"
    if "recipe_building_low_resolution_mask E (Some t) (Some p) (Some c) res_lowresmask s = (Inr (m, tag), s')"
    for m tag s'
    using that unfolding s1(1)
    by (auto simp: read_lowres_def split: if_splits prod.splits sum.splits)
  have c: "\<exists>s'. recipe_building_low_resolution_mask E (Some t) (Some p) (Some c) res_lowresmask s
                    = (Inr (simple_mask E (dat f) (noise_cube E (dat f)), ch), s')"
    if "ps \<noteq> []" "ch \<noteq> ''res_lowresmask''" "fs s (cube_path E t c p ch) = Some (File (Fits f))" for f
  proof -
    have "ch \<in> get_tag_for_res E ` set ps" unfolding ch_def using that(1) by (rule lowres_choice_in)
    moreover have "fs s1 (cube_path E t c p ch) = Some (File (Fits f))"
      unfolding s1(2) with_outdir_file [OF out] by (rule that(3))
    ultimately show ?thesis
      unfolding s1(1) using that(2) by (simp add: read_lowres_def fits_open_def)
  qed
  from a b c show ?thesis unfolding ps_def ch_def by blast
qed

theorem lowres_tag_selection_counterexample:
  "fst (recipe_building_low_resolution_mask demo_env (Some ''T'') (Some ''P'') (Some ''X'')
          default_res_lowresmask demo_world)
     = Inr (\<lparr>shape = [2, 2, 2], elems = [True, False, False, False, False, False, False, False]\<rparr>, ''10p72'')
   \<and> present demo_env demo_world ''T'' ''X'' ''P'' [5, 268 / 25, 20] = [268 / 25, 20]
   \<and> coarsest_tag demo_env [268 / 25, 20] = ''20p00''"
proof -
  have out: "\<not> isfile demo_world (outdir_of demo_env ''T'')"
    by (simp add: isfile_def outdir_of_def demo_defs)
  have x: "get_res_for_config demo_env ''X'' = Some [5, 268 / 25, 20]"
    by (simp add: demo_defs)
  have ps: "present demo_env demo_world ''T'' ''X'' ''P'' [5, 268 / 25, 20] = [268 / 25, 20]"
    by (simp add: present_def on_disk_def isfile_def cube_path_def cube_name_def indir_of_def
          os_path_join_def demo_defs)
  have co: "coarsest_tag demo_env [268 / 25, 20] = ''20p00''"
    by (simp add: coarsest_tag_def demo_defs)
  have ch: "lowres_choice demo_env default_res_lowresmask [268 / 25, 20] = ''10p72''"
    by (simp add: lowres_choice_def default_res_lowresmask_def demo_defs)
  have cp: "cube_path demo_env ''T'' ''X'' ''P'' ''10p72'' = ''/in/T_pbcorr_trimmed_k_res10p72.fits''"
    by (simp add: cube_path_def cube_name_def indir_of_def os_path_join_def demo_defs)
  obtain s1 where s1: "recipe_building_low_resolution_mask demo_env (Some ''T'') (Some ''P'') (Some ''X'')
          default_res_lowresmask demo_world =
            read_lowres demo_env ''T'' ''X'' ''P'' ''10p72'' [268 / 25, 20] s1"
       "fs s1 = with_outdir demo_env ''T'' demo_world"
    using recipe_low_some [OF x out, of "''P''" default_res_lowresmask] unfolding ps ch by blast
  have f: "fs s1 ''/in/T_pbcorr_trimmed_k_res10p72.fits'' = Some (demo_cube [9, 0, 0, 0, 0, 0, 0, 0])"
    unfolding s1(2) by (simp add: with_outdir_def outdir_of_def demo_env_def demo_world_def)
  have "fst (read_lowres demo_env ''T'' ''X'' ''P'' ''10p72'' [268 / 25, 20] s1)
          = Inr (\<lparr>shape = [2, 2, 2], elems = [True, False, False, False, False, False, False, False]\<rparr>, ''10p72'')"
    unfolding read_lowres_def cp fits_open_def f
    by (simp add: demo_defs)
  then show ?thesis using ps co s1(1) by simp
qed

theorem lowres_tag_selection_witness:
  "\<exists>s'. recipe_building_low_resolution_mask demo_env (Some ''T'') (Some ''P'') (Some ''X'') '''' demo_world
                    = (Inr (\<lparr>shape = [2, 2, 2], elems = [False, True, False, False, False, False, False, False]\<rparr>, ''20p00''), s')"
proof -
  have out: "\<not> isfile demo_world (outdir_of demo_env ''T'')"
    by (simp add: isfile_def outdir_of_def demo_defs)
  have x: "get_res_for_config demo_env ''X'' = Some [5, 268 / 25, 20]"
    by (simp add: demo_defs)
  have ps: "present demo_env demo_world ''T'' ''X'' ''P'' [5, 268 / 25, 20] = [268 / 25, 20]"
    by (simp add: present_def on_disk_def isfile_def cube_path_def cube_name_def indir_of_def
          os_path_join_def demo_defs)
  have ch: "lowres_choice demo_env '''' [268 / 25, 20] = ''20p00''"
    by (simp add: lowres_choice_def coarsest_tag_def demo_defs)
  have cp: "cube_path demo_env ''T'' ''X'' ''P'' ''20p00'' = ''/in/T_pbcorr_trimmed_k_res20p00.fits''"
    by (simp add: cube_path_def cube_name_def indir_of_def os_path_join_def demo_defs)
  have f: "fs demo_world ''/in/T_pbcorr_trimmed_k_res20p00.fits''
             = Some (File (Fits \<lparr>hdr = [], dat = \<lparr>shape = [2, 2, 2], elems = [0, 7, 0, 0, 0, 0, 0, 0]\<rparr>\<rparr>))"
    by (simp add: demo_world_def demo_cube_def)
  have m: "simple_mask demo_env \<lparr>shape = [2, 2, 2], elems = [0, 7, 0, 0, 0, 0, 0, 0]\<rparr>
             (noise_cube demo_env \<lparr>shape = [2, 2, 2], elems = [0, 7, 0, 0, 0, 0, 0, 0]\<rparr>)
           = \<lparr>shape = [2, 2, 2], elems = [False, True, False, False, False, False, False, False]\<rparr>"
    by (simp add: demo_env_def)
  from lowres_tag_selection [OF x out, of "''P''" "''''" "''''"]
  have "\<forall>f. present demo_env demo_world ''T'' ''X'' ''P'' [5, 268 / 25, 20] \<noteq> []
              \<and> lowres_choice demo_env '''' (present demo_env demo_world ''T'' ''X'' ''P'' [5, 268 / 25, 20]) \<noteq> ''res_lowresmask''
              \<and> fs demo_world (cube_path demo_env ''T'' ''X'' ''P'' (lowres_choice demo_env '''' (present demo_env demo_world ''T'' ''X'' ''P'' [5, 268 / 25, 20])))
                   = Some (File (Fits f))
            \<longrightarrow> (\<exists>s'. recipe_building_low_resolution_mask demo_env (Some ''T'') (Some ''P'') (Some ''X'') '''' demo_world
                    = (Inr (simple_mask demo_env (dat f) (noise_cube demo_env (dat f)),
                            lowres_choice demo_env '''' (present demo_env demo_world ''T'' ''X'' ''P'' [5, 268 / 25, 20])), s'))"
    by blast
  from this [unfolded ps ch cp, rule_format, of "\<lparr>hdr = [], dat = \<lparr>shape = [2, 2, 2], elems = [0, 7, 0, 0, 0, 0, 0, 0]\<rparr>\<rparr>"] f m
  show ?thesis by simp
qed

theorem low_resolution_recipe_idempotent:
  assumes run: "recipe_building_low_resolution_mask E target product config res_lowresmask s = (res, s')"
  shows "fst (recipe_building_low_resolution_mask E target product config res_lowresmask s') = res
       \<and> (\<forall>q x. (fs s' q = Some (File x)) = (fs s q = Some (File x)))"
proof (cases "target = None \<or> product = None \<or> config = None")
  case True
  have a: "fst (recipe_building_low_resolution_mask E target product config res_lowresmask s')
             = fst (recipe_building_low_resolution_mask E target product config res_lowresmask s)"
    by (rule recipe_low_unset(1) [OF True])
  have b: "fs (snd (recipe_building_low_resolution_mask E target product config res_lowresmask s)) = fs s"
    by (rule recipe_low_unset(2) [OF True])
  show ?thesis
    using a b unfolding run by simp
next
  case False
  then obtain t p c where args: "target = Some t" "product = Some p" "config = Some c" by auto
  show ?thesis
  proof (cases "isfile s (outdir_of E t)")
    case True
    have s': "s' = s\<lparr>logged := logged s @ prelude_log E t\<rparr>" and r: "res = Inl (FileExistsError (outdir_of E t))"
      using run unfolding args recipe_low_blocked [OF True] by simp_all
    have "isfile s' (outdir_of E t)" using True unfolding s' by (simp add: isfile_def)
    from recipe_low_blocked [OF this] show ?thesis unfolding args r by (simp add: s')
  next
    case out: False
    have same: "isfile s1 q = isfile s q" if "fs s1 = with_outdir E t s" for s1 q
      using isfile_with_outdir [OF out that] .
    show ?thesis
    proof (cases "get_res_for_config E c")
      case None
      from recipe_low_none [OF None out, of p res_lowresmask] run
      have r: "res = Inl (Exception (''No target resolutions found for target '' @ t @ '' and config'' @ c))"
        and s': "fs s' = with_outdir E t s"
        unfolding args by auto
      have out': "\<not> isfile s' (outdir_of E t)" using out same [OF s'] by simp
      from recipe_low_none [OF None out', of p res_lowresmask]
      show ?thesis unfolding args r using s' with_outdir_file [OF out] by auto
    next
      case (Some rl)
      define ps where "ps = present E s t c p rl"
      define ch where "ch = lowres_choice E res_lowresmask ps"
      obtain s1 where s1: "recipe_building_low_resolution_mask E (Some t) (Some p) (Some c) res_lowresmask s =
            read_lowres E t c p ch ps s1" "fs s1 = with_outdir E t s"
        using recipe_low_some [OF Some out, of p res_lowresmask] unfolding ps_def ch_def by blast
      have rl: "read_lowres E t c p ch ps s1 = (res, s')"
        using run unfolding args s1(1) .
      have r: "res = fst (read_lowres E t c p ch ps s1)" unfolding rl by simp
      have s': "s' = s1" using read_lowres_snd [of E t c p ch ps s1] unfolding rl by simp
      have out': "\<not> isfile s1 (outdir_of E t)" using out same [OF s1(2)] by simp
      have ps': "present E s1 t c p rl = ps"
        unfolding ps_def using same [OF s1(2)] by (rule present_cong)
      obtain s2 where s2: "recipe_building_low_resolution_mask E (Some t) (Some p) (Some c) res_lowresmask s1 =
            read_lowres E t c p ch ps s2" "fs s2 = with_outdir E t s1"
        using recipe_low_some [OF Some out', of p res_lowresmask] unfolding ps' ch_def by blast
      have "fs s2 = fs s1" unfolding s2(2) using s1(2) by (rule with_outdir_idem)
      then have "fst (read_lowres E t c p ch ps s2) = fst (read_lowres E t c p ch ps s1)"
        by (rule read_lowres_fst)
      then show ?thesis
        unfolding args s' r s2(1) using s1(2) with_outdir_file [OF out] by simp
    qed
  qed
qed

theorem low_resolution_recipe_idempotent_witness:
  "fst (recipe_building_low_resolution_mask demo_env (Some ''T'') (Some ''P'') (Some ''X'') default_res_lowresmask
          (snd (recipe_building_low_resolution_mask demo_env (Some ''T'') (Some ''P'') (Some ''X'')
             default_res_lowresmask demo_world)))
     = fst (recipe_building_low_resolution_mask demo_env (Some ''T'') (Some ''P'') (Some ''X'')
             default_res_lowresmask demo_world)"
  using low_resolution_recipe_idempotent [of demo_env "Some ''T''" "Some ''P''" "Some ''X''" default_res_lowresmask demo_world
      "fst (recipe_building_low_resolution_mask demo_env (Some ''T'') (Some ''P'') (Some ''X'')
             default_res_lowresmask demo_world)"
      "snd (recipe_building_low_resolution_mask demo_env (Some ''T'') (Some ''P'') (Some ''X'')
             default_res_lowresmask demo_world)"]
  by simp

theorem mask_writer_noop_or_replace:
  "(mask' = None \<or> w = None \<or> outfile = None \<longrightarrow>
      task_writing_mask E mask' w header cs outfile s = (Inr (), s))
   \<and> (isfile s out \<longrightarrow>
      task_writing_mask E (Some m) (Some w') header cs (Some out) s
        = cube_write out (mask_file E m w' header cs) (remove out s)
      \<and> fs (remove out s) out = None)
   \<and> (fs s out \<noteq> Some Dir \<longrightarrow>
      task_writing_mask E (Some m) (Some w') header cs (Some out) s
        = (Inr (), s\<lparr>fs := (fs s)(out \<mapsto> File (Fits (mask_file E m w' header cs)))\<rparr>))"
  using task_writing_mask_ok [of s out E m w' header cs]
  by (auto simp: task_writing_mask_set remove_def) (auto simp: task_writing_mask_def)

theorem product_writer_without_error_maps_raises:
  assumes "\<not> do_errormaps fl"
    and "process_list fl (re_sub_suffix ''.fits'' commonoutfitsfile) = pd # pds"
  shows "task_writting_products E cube rms commonoutfitsfile fl s =
     (Inl (TypeError ''stat: path should be string, bytes, os.PathLike or integer, not NoneType''),
      if isfile s (pd_outfile pd)
      then logger INFO (''Deleting old file \"'' @ pd_outfile pd @ ''\"'') (remove (pd_outfile pd) s)
      else s)"
  using assms
  by (simp add: task_writting_products_def Let_def and_then_def delete_old_files_def isfile_arg_def)

theorem missing_cubes_are_omitted:
  assumes res: "get_res_for_config E c = Some rl"
    and out: "\<not> isfile s (outdir_of E t)"
  shows "(\<exists>fd s1. fname_dict E (Some t) (Some c) (Some p) extra_ext res_lowresmask s = (Inr (Table fd), s1)
            \<and> (\<forall>tag. tag \<noteq> ''res_lowresmask'' \<longrightarrow>
                  (tag \<in> dom fd \<longleftrightarrow> (\<exists>r\<in>set rl. get_tag_for_res E r = tag \<and> on_disk E s t c p r)))
            \<and> (\<forall>tag e. fd tag = Some (Paths e) \<longrightarrow>
                  e ''pbcorr_trimmed_k'' = Some (cube_path E t c p tag) \<and> isfile s (cube_path E t c p tag))
            \<and> (\<forall>r\<in>set rl. \<not> on_disk E s t c p r \<longrightarrow> missing_warning E t c p r \<in> set (logged s1)))
       \<and> (\<forall>lm lt s'.
            recipe_building_all_resolution_masks E (Some t) (Some p) (Some c) (Some lm) (Some lt) s = (Inr (), s')
            \<longrightarrow> (\<forall>r\<in>set rl. on_disk E s t c p r \<longrightarrow>
                    (\<forall>q\<in>set (outputs E t c p (get_tag_for_res E r)). is_fits s' q))
              \<and> (\<forall>q. (\<forall>r\<in>set rl. on_disk E s t c p r \<longrightarrow> q \<notin> set (outputs E t c p (get_tag_for_res E r)))
                    \<longrightarrow> fs s' q = with_outdir E t s q))"
proof -
  define ps where "ps = present E s t c p rl"
  define fd where "fd = (table_of E t c p ps)(''res_lowresmask'' \<mapsto> Str (lowres_choice E res_lowresmask ps))"
  obtain s1 where run: "fname_dict E (Some t) (Some c) (Some p) extra_ext res_lowresmask s = (Inr (Table fd), s1)"
      and lg: "logged s1 = logged s @ prelude_log E t
              @ map (missing_warning E t c p) (filter (\<lambda>r. \<not> on_disk E s t c p r) rl)"
    using fname_dict_some [OF res out, of p extra_ext res_lowresmask] unfolding ps_def fd_def by blast
  have k: "tag \<in> dom fd \<longleftrightarrow> (\<exists>r\<in>set rl. get_tag_for_res E r = tag \<and> on_disk E s t c p r)"
    if "tag \<noteq> ''res_lowresmask''" for tag
    using that tag_present [of tag E s t c p rl] by (simp add: fd_def dom_table_of ps_def)
  have e: "e ''pbcorr_trimmed_k'' = Some (cube_path E t c p tag) \<and> isfile s (cube_path E t c p tag)"
    if "fd tag = Some (Paths e)" for tag e
  proof -
    have nr: "tag \<noteq> ''res_lowresmask''" using that by (auto simp: fd_def)
    then have tb: "table_of E t c p ps tag = Some (Paths e)" using that by (simp add: fd_def)
    then have "tag \<in> get_tag_for_res E ` set ps" by (auto simp: table_of_def split: if_splits)
    then have "isfile s (cube_path E t c p tag)"
      unfolding ps_def tag_present by (auto simp: on_disk_def)
    moreover have "e = cube_entry (indir_of E t) (outdir_of E t) (cube_name E t c p tag) tag"
      using tb by (auto simp: table_of_def split: if_splits)
    ultimately show ?thesis by (simp only: entry_lookup simp_thms)
  qed
  have w: "missing_warning E t c p r \<in> set (logged s1)" if "r \<in> set rl" "\<not> on_disk E s t c p r" for r
    unfolding lg using that by simp
  have a: "\<exists>fd s1. fname_dict E (Some t) (Some c) (Some p) extra_ext res_lowresmask s = (Inr (Table fd), s1)
            \<and> (\<forall>tag. tag \<noteq> ''res_lowresmask'' \<longrightarrow>
                  (tag \<in> dom fd \<longleftrightarrow> (\<exists>r\<in>set rl. get_tag_for_res E r = tag \<and> on_disk E s t c p r)))
            \<and> (\<forall>tag e. fd tag = Some (Paths e) \<longrightarrow>
                  e ''pbcorr_trimmed_k'' = Some (cube_path E t c p tag) \<and> isfile s (cube_path E t c p tag))
            \<and> (\<forall>r\<in>set rl. \<not> on_disk E s t c p r \<longrightarrow> missing_warning E t c p r \<in> set (logged s1))"
  proof (rule exI [of _ fd], rule exI [of _ s1], intro conjI)
    show "fname_dict E (Some t) (Some c) (Some p) extra_ext res_lowresmask s = (Inr (Table fd), s1)"
      by (rule run)
    show "\<forall>tag. tag \<noteq> ''res_lowresmask'' \<longrightarrow>
            (tag \<in> dom fd \<longleftrightarrow> (\<exists>r\<in>set rl. get_tag_for_res E r = tag \<and> on_disk E s t c p r))"
      using k by (intro allI impI)
    show "\<forall>tag e. fd tag = Some (Paths e) \<longrightarrow>
            e ''pbcorr_trimmed_k'' = Some (cube_path E t c p tag) \<and> isfile s (cube_path E t c p tag)"
      using e by (intro allI impI)
    show "\<forall>r\<in>set rl. \<not> on_disk E s t c p r \<longrightarrow> missing_warning E t c p r \<in> set (logged s1)"
      using w by (intro ballI impI)
  qed
  show ?thesis
  proof (intro conjI allI impI)
    show "\<exists>fd s1. fname_dict E (Some t) (Some c) (Some p) extra_ext res_lowresmask s = (Inr (Table fd), s1)
            \<and> (\<forall>tag. tag \<noteq> ''res_lowresmask'' \<longrightarrow>
                  (tag \<in> dom fd \<longleftrightarrow> (\<exists>r\<in>set rl. get_tag_for_res E r = tag \<and> on_disk E s t c p r)))
            \<and> (\<forall>tag e. fd tag = Some (Paths e) \<longrightarrow>
                  e ''pbcorr_trimmed_k'' = Some (cube_path E t c p tag) \<and> isfile s (cube_path E t c p tag))
            \<and> (\<forall>r\<in>set rl. \<not> on_disk E s t c p r \<longrightarrow> missing_warning E t c p r \<in> set (logged s1))"
      by (rule a)
  next
    fix lm lt s'
    assume "recipe_building_all_resolution_masks E (Some t) (Some p) (Some c) (Some lm) (Some lt) s = (Inr (), s')"
    then show "\<forall>r\<in>set rl. on_disk E s t c p r \<longrightarrow>
                    (\<forall>q\<in>set (outputs E t c p (get_tag_for_res E r)). is_fits s' q)"
      by (rule recipe_outputs(1) [OF res])
  next
    fix lm lt s' q
    assume "recipe_building_all_resolution_masks E (Some t) (Some p) (Some c) (Some lm) (Some lt) s = (Inr (), s')"
      and "\<forall>r\<in>set rl. on_disk E s t c p r \<longrightarrow> q \<notin> set (outputs E t c p (get_tag_for_res E r))"
    then show "fs s' q = with_outdir E t s q"
      using recipe_outputs(2) [OF res] by blast
  qed
qed

theorem hybrid_mask_is_pointwise_or:
  assumes res: "get_res_for_config E c = Some rl"
    and run: "recipe_building_all_resolution_masks E (Some t) (Some p) (Some c) (Some lm) (Some lt) s = (Inr (), s')"
    and r: "r \<in> set rl" "on_disk E s t c p r"
    and cube: "fs s (cube_path E t c p (get_tag_for_res E r)) = Some (File (Fits f))"
    and apart: "\<forall>x\<in>set rl. on_disk E s t c p x \<longrightarrow> get_tag_for_res E x \<noteq> get_tag_for_res E r \<longrightarrow>
                  out_path E t c p (get_tag_for_res E r) ''hybridmask'' \<notin> set (outputs E t c p (get_tag_for_res E x))"
    and kept: "\<forall>x\<in>set rl. on_disk E s t c p x \<longrightarrow>
                  cube_path E t c p (get_tag_for_res E r) \<notin> set (outputs E t c p (get_tag_for_res E x))"
    and grid: "shape (signal_of E f) = shape lm"
      "length (elems (signal_of E f)) = prod_list (shape lm)" "length (elems lm) = prod_list (shape lm)"
  shows "fs s' (out_path E t c p (get_tag_for_res E r) ''hybridmask'') =
           Some (File (Fits
             \<lparr>hdr = mask_header E (WCS E (hdr f)) (Some (hdr f)) (Some (hybrid_comments (get_tag_for_res E r) lt)),
              dat = \<lparr>shape = shape lm,
                     elems = map2 (\<lambda>a b. if a \<or> b then 1 else 0) (elems (signal_of E f)) (elems lm)\<rparr>\<rparr>))"
proof -
  let ?step = "resolution_step E (Table (recipe_table E s t c p rl)) lm lt"
  let ?tag = "get_tag_for_res E r"
  let ?cube = "cube_path E t c p ?tag"
  let ?hp = "out_path E t c p ?tag ''hybridmask''"
  define hyb where "hyb = \<lparr>shape = shape lm, elems = map2 (\<or>) (elems (signal_of E f)) (elems lm)\<rparr>"
  define want where "want = Some (File (Fits (mask_file E hyb (WCS E (hdr f)) (Some (hdr f)) (Some (hybrid_comments ?tag lt)))))"
  have lo: "logical_or (signal_of E f) lm = Inr hyb"
    using logical_or_same_shape [of "signal_of E f" lm] grid by (simp add: hyb_def)
  obtain s0 where s0: "fs s0 = with_outdir E t s" and loop: "for_each ?step rl s0 = (Inr (), s')"
    using recipe_all_run(2) [OF res run] by blast
  have out: "\<not> isfile s (outdir_of E t)" by (rule recipe_all_run(1) [OF res run])
  have I0: "fs s0 ?cube = Some (File (Fits f))"
    unfolding s0 with_outdir_file [OF out] by (rule cube)
  have "fs s' ?hp = want"
  proof (rule for_each_establish [OF loop r(1), where I = "\<lambda>a. fs a ?cube = Some (File (Fits f))"
        and Q = "\<lambda>a. fs a ?hp = want"])
    show "fs s0 ?cube = Some (File (Fits f))" by (rule I0)
  next
    fix x a b assume a: "fs a ?cube = Some (File (Fits f))" and st: "?step x a = (Inr (), b)"
    from st show "fs b ?cube = Some (File (Fits f))"
    proof (cases rule: resolution_step_cases)
      case skip
      then show ?thesis using a by simp
    next
      case (build g h)
      from build(1) kept have "?cube \<notin> set (outputs E t c p (get_tag_for_res E x))" by metis
      then have "fs b ?cube = fs a ?cube" by (rule build(5))
      then show ?thesis using a by simp
    qed
  next
    fix a b assume a: "fs a ?cube = Some (File (Fits f))" and st: "?step r a = (Inr (), b)"
    from st show "fs b ?hp = want"
    proof (cases rule: resolution_step_cases)
      case skip
      then show ?thesis using r by blast
    next
      case (build g h)
      have "g = f" using build(2) a by simp
      then have "h = hyb" using build(3) lo by simp
      then show ?thesis using build(4) \<open>g = f\<close> by (simp add: want_def)
    qed
  next
    fix x a b assume a: "fs a ?cube = Some (File (Fits f))" "fs a ?hp = want" and st: "?step x a = (Inr (), b)"
    from st show "fs b ?hp = want"
    proof (cases rule: resolution_step_cases)
      case skip
      then show ?thesis using a(2) by simp
    next
      case (build g h)
      show ?thesis
      proof (cases "get_tag_for_res E x = ?tag")
        case True
        have "g = f" using build(2) a(1) True by simp
        then have "h = hyb" using build(3) lo by simp
        then show ?thesis using build(4) \<open>g = f\<close> True by (simp add: want_def)
      next
        case False
        obtain y where y: "y \<in> set rl" "get_tag_for_res E y = get_tag_for_res E x" "on_disk E s t c p y"
          using build(1) by blast
        from apart y(1,3) have "get_tag_for_res E y \<noteq> ?tag \<longrightarrow>
            ?hp \<notin> set (outputs E t c p (get_tag_for_res E y))" by blast
        then have "?hp \<notin> set (outputs E t c p (get_tag_for_res E x))"
          unfolding y(2) using False by blast
        then have "fs b ?hp = fs a ?hp" by (rule build(5))
        then show ?thesis using a(2) by simp
      qed
    qed
  qed
  moreover have "astype_int hyb = \<lparr>shape = shape lm,
      elems = map2 (\<lambda>a b. if a \<or> b then 1 else 0) (elems (signal_of E f)) (elems lm)\<rparr>"
    by (simp only: hyb_def astype_int_def ndarray.select_convs astype_int_or)
  ultimately show ?thesis
    by (simp only: want_def mask_file_def)
qed

end
